theory Spec2Isabelle
  imports Complex_Main "HOL-Library.AList" "HOL-Library.Char_ord" "HOL-Library.List_Lexorder"
    "HOL-Library.Multiset"
begin

section \<open>Penman evaporation calculator: a model of backend/server.py\<close>

text \<open>
  The source computes with Python floats. The arithmetic of the model is that of the real
  numbers (\<^typ>\<open>real\<close>): \<^term>\<open>exp\<close> is the real exponential and the rounding error of
  a float operation is not represented. The model therefore decides the sign of a result,
  the order of two results, the equality of two calls and a rounded value whose exact value
  is well away from a rounding tie, but not the last digit that \<open>round\<close> returns at or next
  to a tie: that digit depends on the float operations, on the platform's \<open>exp\<close> and on
  the interpreter's \<open>sum\<close>. Every division goes through \<open>py_div\<close>, which
  raises as Python does on a zero divisor, and \<open>round(x, n)\<close> is \<open>py_round\<close>.

  The evaporation function is given twice. In \<open>calculate_penman_evaporation\<close> the calls of
  \<open>math.exp\<close> and \<open>**\<close> are total. In \<open>calculate_penman_evaporation_checked\<close> they are
  \<open>py_exp\<close> and \<open>py_pow2\<close>, which raise \<open>OverflowError\<close> as the two operations do on floats
  when the result lies beyond the largest float; the rest of the body is the same. The
  other float operations of the body overflow to infinity without raising.

  The document store is a record of three lists of stored documents, each in the order
  of insertion; a handler takes the store and returns the new one. The identifiers and
  the timestamps that \<open>uuid4\<close> and \<open>datetime.now\<close> produce are arguments of the handlers.
\<close>

subsection \<open>Python primitives\<close>

datatype py_error = ZeroDivisionError | OverflowError | KeyError | ValueError

definition py_bind :: "py_error + 'a \<Rightarrow> ('a \<Rightarrow> py_error + 'b) \<Rightarrow> py_error + 'b" where
  "py_bind m f = (case m of Inl e \<Rightarrow> Inl e | Inr v \<Rightarrow> f v)"

definition py_div :: "real \<Rightarrow> real \<Rightarrow> py_error + real" where
  \<comment> \<open>\<open>a / b\<close> on floats: a zero divisor raises.\<close>
  "py_div a b = (if b = 0 then Inl ZeroDivisionError else Inr (a / b))"

definition round_half_even :: "real \<Rightarrow> int" where
  \<comment> \<open>The nearest integer, a tie going to the even neighbour.\<close>
  "round_half_even x =
     (let f = \<lfloor>x\<rfloor>; d = x - of_int f
      in if d < 1 / 2 then f
         else if 1 / 2 < d then f + 1
         else if even f then f else f + 1)"

definition py_round :: "real \<Rightarrow> nat \<Rightarrow> real" where
  \<comment> \<open>\<open>round(x, n)\<close>: the nearest multiple of \<open>10 ^ -n\<close>, ties to even.\<close>
  "py_round x n = of_int (round_half_even (x * 10 ^ n)) / 10 ^ n"

definition py_getitem :: "('k \<times> 'v) list \<Rightarrow> 'k \<Rightarrow> py_error + 'v" where
  \<comment> \<open>\<open>d[k]\<close> on a dict, kept as an association list in insertion order.\<close>
  "py_getitem d k = (case map_of d k of None \<Rightarrow> Inl KeyError | Some v \<Rightarrow> Inr v)"

fun py_collect :: "('a \<Rightarrow> py_error + 'b) \<Rightarrow> 'a list \<Rightarrow> py_error + 'b list" where
  \<comment> \<open>A list comprehension \<open>[f(x) for x in xs]\<close>: the first raise ends it.\<close>
  "py_collect f [] = Inr []"
| "py_collect f (x # xs) =
     py_bind (f x) (\<lambda>y. py_bind (py_collect f xs) (\<lambda>ys. Inr (y # ys)))"

definition py_sum :: "real list \<Rightarrow> real" where
  \<comment> \<open>\<open>sum(xs)\<close>: a left fold from 0.\<close>
  "py_sum xs = foldl (+) 0 xs"

definition py_max :: "real \<Rightarrow> real \<Rightarrow> real" where
  \<comment> \<open>\<open>max(a, b)\<close>: the first argument unless the second is strictly greater.\<close>
  "py_max a b = (if a < b then b else a)"

subsection \<open>The evaporation model\<close>

text \<open>The local variables of \<open>calculate_penman_evaporation\<close> (lines 71 to 94).\<close>

record penman_locals =
  psychrometric_constant :: real
  es :: real
  ea :: real
  delta :: real
  rn :: real
  wind_function :: real
  radiation_component :: real
  aerodynamic_component :: real
  evaporation :: real

definition penman_body :: "real \<Rightarrow> real \<Rightarrow> real \<Rightarrow> real \<Rightarrow> py_error + penman_locals" where
  "penman_body temperature humidity wind_speed solar_radiation =
     (let psy = 0.665 in
      py_bind (py_div (17.27 * temperature) (temperature + 237.3)) (\<lambda>q.
      let v_es = 0.6108 * exp q in
      py_bind (py_div humidity 100.0) (\<lambda>rh.
      let v_ea = v_es * rh in
      py_bind (py_div (4098 * v_es) ((temperature + 237.3) ^ 2)) (\<lambda>v_delta.
      py_bind (py_div solar_radiation 2.45) (\<lambda>v_rn.
      let wf = 2.6 * (1 + 0.54 * wind_speed) in
      py_bind (py_div v_delta (v_delta + psy)) (\<lambda>wr.
      let rc = wr * v_rn in
      py_bind (py_div psy (v_delta + psy)) (\<lambda>wa.
      let ac = wa * wf * (v_es - v_ea) in
      Inr \<lparr> psychrometric_constant = psy, es = v_es, ea = v_ea, delta = v_delta,
            rn = v_rn, wind_function = wf, radiation_component = rc,
            aerodynamic_component = ac, evaporation = rc + ac \<rparr>)))))))"

definition components :: "penman_locals \<Rightarrow> (string \<times> real) list" where
  \<comment> \<open>The dict of lines 97 to 106, in insertion order.\<close>
  "components v =
     [(''radiation_component'', py_round (radiation_component v) 3),
      (''aerodynamic_component'', py_round (aerodynamic_component v) 3),
      (''saturation_vapor_pressure'', py_round (es v) 3),
      (''actual_vapor_pressure'', py_round (ea v) 3),
      (''vapor_pressure_deficit'', py_round (es v - ea v) 3),
      (''slope_vapor_pressure'', py_round (delta v) 3),
      (''wind_function'', py_round (wind_function v) 3),
      (''net_radiation_equivalent'', py_round (rn v) 3)]"

definition calculate_penman_evaporation ::
  "real \<Rightarrow> real \<Rightarrow> real \<Rightarrow> real \<Rightarrow> py_error + (real \<times> (string \<times> real) list)" where
  "calculate_penman_evaporation temperature humidity wind_speed solar_radiation =
     py_bind (penman_body temperature humidity wind_speed solar_radiation) (\<lambda>v.
       Inr (py_max 0 (evaporation v), components v))"

text \<open>
  The same function with the two operations that can raise \<open>OverflowError\<close>.
\<close>

definition float_overflows :: "real \<Rightarrow> bool" where
  \<comment> \<open>The exact result of a float operation rounds to infinity: the largest float is
      \<open>2 ^ 1024 - 2 ^ 971\<close>, and a magnitude from \<open>2 ^ 1024 - 2 ^ 970\<close> on, half a step
      above it, no longer rounds to it.\<close>
  "float_overflows y = (2 ^ 1024 - 2 ^ 970 \<le> \<bar>y\<bar>)"

definition py_exp :: "real \<Rightarrow> py_error + real" where
  \<comment> \<open>\<open>math.exp(x)\<close>: raises \<open>OverflowError\<close> when the result is out of range.\<close>
  "py_exp x = (if float_overflows (exp x) then Inl OverflowError else Inr (exp x))"

definition py_pow2 :: "real \<Rightarrow> py_error + real" where
  \<comment> \<open>\<open>x ** 2\<close> on a float: raises \<open>OverflowError\<close> when the result is out of range.\<close>
  "py_pow2 x = (if float_overflows (x ^ 2) then Inl OverflowError else Inr (x ^ 2))"

definition penman_body_checked ::
  "real \<Rightarrow> real \<Rightarrow> real \<Rightarrow> real \<Rightarrow> py_error + penman_locals" where
  \<comment> \<open>Lines 71 to 94 again, in the order of evaluation, with \<open>math.exp\<close> (line 74) and
      \<open>**\<close> (line 80) raising on overflow.\<close>
  "penman_body_checked temperature humidity wind_speed solar_radiation =
     (let psy = 0.665 in
      py_bind (py_div (17.27 * temperature) (temperature + 237.3)) (\<lambda>q.
      py_bind (py_exp q) (\<lambda>e.
      let v_es = 0.6108 * e in
      py_bind (py_div humidity 100.0) (\<lambda>rh.
      let v_ea = v_es * rh in
      py_bind (py_pow2 (temperature + 237.3)) (\<lambda>sq.
      py_bind (py_div (4098 * v_es) sq) (\<lambda>v_delta.
      py_bind (py_div solar_radiation 2.45) (\<lambda>v_rn.
      let wf = 2.6 * (1 + 0.54 * wind_speed) in
      py_bind (py_div v_delta (v_delta + psy)) (\<lambda>wr.
      let rc = wr * v_rn in
      py_bind (py_div psy (v_delta + psy)) (\<lambda>wa.
      let ac = wa * wf * (v_es - v_ea) in
      Inr \<lparr> psychrometric_constant = psy, es = v_es, ea = v_ea, delta = v_delta,
            rn = v_rn, wind_function = wf, radiation_component = rc,
            aerodynamic_component = ac, evaporation = rc + ac \<rparr>)))))))))"

definition calculate_penman_evaporation_checked ::
  "real \<Rightarrow> real \<Rightarrow> real \<Rightarrow> real \<Rightarrow> py_error + (real \<times> (string \<times> real) list)" where
  "calculate_penman_evaporation_checked temperature humidity wind_speed solar_radiation =
     py_bind (penman_body_checked temperature humidity wind_speed solar_radiation) (\<lambda>v.
       Inr (py_max 0 (evaporation v), components v))"

subsection \<open>The formulas of the specification\<close>

text \<open>
  The quantities of the specification's algorithm (section 4.1, steps 1 to 8), written from
  its words. They are compared below with what \<open>penman_body\<close> computes.
\<close>

definition spec_es :: "real \<Rightarrow> real" where
  "spec_es T = 0.6108 * exp (17.27 * T / (T + 237.3))"

definition spec_ea :: "real \<Rightarrow> real \<Rightarrow> real" where
  "spec_ea T h = spec_es T * h / 100"

definition spec_delta :: "real \<Rightarrow> real" where
  "spec_delta T = 4098 * spec_es T / (T + 237.3) ^ 2"

definition spec_rn :: "real \<Rightarrow> real" where
  "spec_rn s = s / 2.45"

definition spec_fu :: "real \<Rightarrow> real" where
  "spec_fu w = 2.6 * (1 + 0.54 * w)"

definition spec_radiation :: "real \<Rightarrow> real \<Rightarrow> real" where
  "spec_radiation T s = spec_delta T / (spec_delta T + 0.665) * spec_rn s"

definition spec_aerodynamic :: "real \<Rightarrow> real \<Rightarrow> real \<Rightarrow> real" where
  "spec_aerodynamic T h w =
     0.665 / (spec_delta T + 0.665) * spec_fu w * (spec_es T - spec_ea T h)"


subsection \<open>Records\<close>

text \<open>
  The pydantic models. A result record is polymorphic in the type of its timestamp: the
  model object holds a structured timestamp, the stored document holds the string written
  by \<open>isoformat\<close>. The identifier and the timestamp come from \<open>uuid4\<close> and
  \<open>datetime.now\<close>; the model takes them as arguments.
\<close>

record WeatherInput =
  temperature :: real
  humidity :: real
  wind_speed :: real
  solar_radiation :: real
  location :: "string option"

record 't EvaporationResult =
  er_id :: string
  evaporation_rate :: real
  weather_input :: WeatherInput
  penman_components :: "(string \<times> real) list"
  er_timestamp :: 't

definition new_evaporation_result ::
  "WeatherInput \<Rightarrow> string \<Rightarrow> 't \<Rightarrow> py_error + 't EvaporationResult" where
  \<comment> \<open>Lines 189 to 200, and again lines 214 to 225: the model is run and the record built.\<close>
  "new_evaporation_result winput fresh_id now =
     py_bind (calculate_penman_evaporation (temperature winput) (humidity winput)
                (wind_speed winput) (solar_radiation winput)) (\<lambda>(rate, comps).
       Inr \<lparr> er_id = fresh_id, evaporation_rate = py_round rate 3, weather_input = winput,
             penman_components = comps, er_timestamp = now \<rparr>)"

subsection \<open>The storage planning model\<close>

record planning_data =
  reservoir_capacity_needed :: real
  seasonal_analysis :: "(string \<times> (string \<times> real) list) list"
  irrigation_recommendations :: "(string \<times> string) list list"
  water_balance :: "(string \<times> real) list"

definition seasonal_factors :: "(string \<times> real) list" where
  "seasonal_factors =
     [(''spring'', 0.8), (''summer'', 1.3), (''autumn'', 0.7), (''winter'', 0.4)]"

definition season_record :: "real \<Rightarrow> real \<Rightarrow> (string \<times> real) list" where
  \<comment> \<open>The body of the loop of lines 129 to 135 for one season.\<close>
  "season_record daily_loss factor =
     (let seasonal_loss = daily_loss * factor * 90 in
      [(''daily_evaporation_loss'', py_round (daily_loss * factor) 2),
       (''seasonal_total_loss'', py_round seasonal_loss 2),
       (''percentage_factor'', factor)])"

definition seasonal_loop :: "real \<Rightarrow> (string \<times> (string \<times> real) list) list" where
  \<comment> \<open>The loop over \<open>seasonal_factors.items()\<close>, assigning into an empty dict.\<close>
  "seasonal_loop daily_loss =
     fold (\<lambda>(season, factor) acc. AList.update season (season_record daily_loss factor) acc)
       seasonal_factors []"

definition em_dash :: string where
  \<comment> \<open>The UTF-8 bytes of U+2014, which the source's texts contain.\<close>
  "em_dash = [CHR 0xE2, CHR 0x80, CHR 0x94]"

definition irrigation :: "(string \<times> string) list list" where
  \<comment> \<open>The constant list of lines 152 to 171.\<close>
  "irrigation =
     [[(''period'', ''Summer (Mar-Jun)''),
       (''irrigation_frequency'', ''Every 3-4 days''),
       (''water_requirement'', ''High''),
       (''evaporation_consideration'',
          ''High evaporation losses '' @ em_dash @ '' increase irrigation by 30%'')],
      [(''period'', ''Rainy (Jul-Oct)''),
       (''irrigation_frequency'', ''Every 10-15 days''),
       (''water_requirement'', ''Low''),
       (''evaporation_consideration'',
          ''Rainfall compensates '' @ em_dash @ '' minimal irrigation required'')],
      [(''period'', ''Winter (Nov-Feb)''),
       (''irrigation_frequency'', ''Every 7-10 days''),
       (''water_requirement'', ''Medium''),
       (''evaporation_consideration'',
          ''Low evaporation '' @ em_dash @ '' moderate irrigation needed'')]]"

definition calculate_storage_planning ::
  "'t EvaporationResult \<Rightarrow> real \<Rightarrow> py_error + planning_data" where
  "calculate_storage_planning evaporation_result reservoir_surface_area =
     (let evap_rate = evaporation_rate evaporation_result in
      py_bind (py_div evap_rate 1000) (\<lambda>metres.
      let daily_loss = metres * reservoir_surface_area;
          seasonal = seasonal_loop daily_loss in
      py_bind (py_collect (\<lambda>season_data. py_getitem season_data ''seasonal_total_loss'')
                 (map snd seasonal)) (\<lambda>totals.
      let annual_loss = py_sum totals;
          recommended_capacity = annual_loss * 1.5;
          balance =
            [(''annual_evaporation_loss'', py_round annual_loss 2),
             (''recommended_buffer'', py_round (annual_loss * 0.5) 2),
             (''total_recommended_capacity'', py_round recommended_capacity 2),
             (''surface_area_assumed'', reservoir_surface_area)]
      in Inr \<lparr> reservoir_capacity_needed = py_round recommended_capacity 2,
                 seasonal_analysis = seasonal,
                 irrigation_recommendations = irrigation,
                 water_balance = balance \<rparr>)))"



subsection \<open>Timestamps\<close>

text \<open>
  Every timestamp of the program is made by \<open>datetime.now(timezone.utc)\<close> or read back
  from what \<open>isoformat\<close> wrote for one, so its zone is always UTC and the record holds
  the seven fields only. Python compares two such values field by field, in this order.
\<close>

record datetime =
  year :: nat
  month :: nat
  day :: nat
  hour :: nat
  minute :: nat
  second :: nat
  microsecond :: nat

definition is_leap :: "nat \<Rightarrow> bool" where
  "is_leap y = (y mod 4 = 0 \<and> (y mod 400 = 0 \<or> y mod 100 \<noteq> 0))"

definition days_in_month :: "nat \<Rightarrow> nat \<Rightarrow> nat" where
  "days_in_month y m =
     (if m = 2 then (if is_leap y then 29 else 28)
      else if m = 4 \<or> m = 6 \<or> m = 9 \<or> m = 11 then 30 else 31)"

definition valid_datetime :: "datetime \<Rightarrow> bool" where
  \<comment> \<open>The ranges the \<open>datetime\<close> constructor enforces.\<close>
  "valid_datetime d =
     (1 \<le> year d \<and> year d \<le> 9999 \<and> 1 \<le> month d \<and> month d \<le> 12 \<and>
      1 \<le> day d \<and> day d \<le> days_in_month (year d) (month d) \<and>
      hour d < 24 \<and> minute d < 60 \<and> second d < 60 \<and> microsecond d < 1000000)"

definition dt_fields :: "datetime \<Rightarrow> nat list" where
  \<comment> \<open>The comparison key: earlier instants have the smaller list, lexicographically.\<close>
  "dt_fields d = [year d, month d, day d, hour d, minute d, second d, microsecond d]"

definition digit_char :: "nat \<Rightarrow> char" where
  "digit_char d = char_of (48 + d)"

fun dec :: "nat \<Rightarrow> string" where
  \<comment> \<open>\<open>str(n)\<close> for a natural number.\<close>
  "dec n = (if n < 10 then [digit_char n] else dec (n div 10) @ [digit_char (n mod 10)])"

definition zpad :: "nat \<Rightarrow> nat \<Rightarrow> string" where
  \<comment> \<open>\<open>"%0wd" % n\<close>: zeros on the left up to width \<open>w\<close>, never a truncation.\<close>
  "zpad w n = replicate (w - length (dec n)) (CHR ''0'') @ dec n"

definition isoformat :: "datetime \<Rightarrow> string" where
  \<comment> \<open>\<open>d.isoformat()\<close> for a UTC timestamp: the fraction is left out when it is zero.\<close>
  "isoformat d =
     zpad 4 (year d) @ ''-'' @ zpad 2 (month d) @ ''-'' @ zpad 2 (day d) @ ''T'' @
     zpad 2 (hour d) @ '':'' @ zpad 2 (minute d) @ '':'' @ zpad 2 (second d) @
     (if microsecond d = 0 then [] else ''.'' @ zpad 6 (microsecond d)) @ ''+00:00''"

definition digit_val :: "char \<Rightarrow> nat option" where
  "digit_val c =
     (let k = (of_char c :: nat) in if 48 \<le> k \<and> k \<le> 57 then Some (k - 48) else None)"

fun read_digits :: "nat \<Rightarrow> nat \<Rightarrow> string \<Rightarrow> (nat \<times> string) option" where
  \<comment> \<open>Exactly \<open>k\<close> decimal digits, most significant first.\<close>
  "read_digits 0 acc s = Some (acc, s)"
| "read_digits (Suc k) acc [] = None"
| "read_digits (Suc k) acc (c # s) =
     (case digit_val c of None \<Rightarrow> None | Some d \<Rightarrow> read_digits k (10 * acc + d) s)"

definition expect :: "string \<Rightarrow> string \<Rightarrow> string option" where
  "expect p s = (if take (length p) s = p then Some (drop (length p) s) else None)"

definition read_fraction :: "string \<Rightarrow> (nat \<times> string) option" where
  "read_fraction s =
     (case s of [] \<Rightarrow> Some (0, s)
      | c # r \<Rightarrow> if c = CHR ''.'' then read_digits 6 0 r else Some (0, s))"

definition parse_iso :: "string \<Rightarrow> datetime option" where
  "parse_iso s0 =
     Option.bind (read_digits 4 0 s0) (\<lambda>(y, s1).
     Option.bind (expect ''-'' s1) (\<lambda>s2.
     Option.bind (read_digits 2 0 s2) (\<lambda>(mo, s3).
     Option.bind (expect ''-'' s3) (\<lambda>s4.
     Option.bind (read_digits 2 0 s4) (\<lambda>(d, s5).
     Option.bind (expect ''T'' s5) (\<lambda>s6.
     Option.bind (read_digits 2 0 s6) (\<lambda>(h, s7).
     Option.bind (expect '':'' s7) (\<lambda>s8.
     Option.bind (read_digits 2 0 s8) (\<lambda>(mi, s9).
     Option.bind (expect '':'' s9) (\<lambda>s10.
     Option.bind (read_digits 2 0 s10) (\<lambda>(sec, s11).
     Option.bind (read_fraction s11) (\<lambda>(us, s12).
     if s12 = ''+00:00''
     then Some \<lparr> year = y, month = mo, day = d, hour = h, minute = mi, second = sec,
                 microsecond = us \<rparr>
     else None))))))))))))"

definition fromisoformat :: "string \<Rightarrow> py_error + datetime" where
  \<comment> \<open>\<open>datetime.fromisoformat(s)\<close> on the strings \<open>isoformat\<close> writes for a UTC timestamp:
      \<open>YYYY-MM-DDTHH:MM:SS[.ffffff]+00:00\<close>, the fields in range. Python accepts other
      shapes too (other offsets and separators); the store never holds one, and the model
      raises \<open>ValueError\<close> on them.\<close>
  "fromisoformat s =
     (case parse_iso s of
        None \<Rightarrow> Inl ValueError
      | Some d \<Rightarrow> if valid_datetime d then Inr d else Inl ValueError)"

subsection \<open>Result records and the store\<close>

record 't StoragePlanningResult = planning_data +
  sp_id :: string
  evaporation_data :: "'t EvaporationResult"
  sp_timestamp :: 't

record 't StatusCheck =
  sc_id :: string
  client_name :: string
  sc_timestamp :: 't

text \<open>
  The three collections, each in insertion order. A stored document is the model's dict
  with every timestamp replaced by its \<open>isoformat\<close> string; the \<open>_id\<close> that the store
  adds is dropped again when a model object is built, and is left out.
\<close>

record db_state =
  evaporation_results :: "string EvaporationResult list"
  storage_planning_results :: "string StoragePlanningResult list"
  status_checks :: "string StatusCheck list"

definition empty_db :: db_state where
  "empty_db = \<lparr> evaporation_results = [], storage_planning_results = [], status_checks = [] \<rparr>"

fun insert_desc :: "('a \<Rightarrow> string) \<Rightarrow> 'a \<Rightarrow> 'a list \<Rightarrow> 'a list" where
  "insert_desc key x [] = [x]"
| "insert_desc key x (y # ys) =
     (if key y < key x then x # y # ys else y # insert_desc key x ys)"

definition sort_desc :: "('a \<Rightarrow> string) \<Rightarrow> 'a list \<Rightarrow> 'a list" where
  \<comment> \<open>\<open>.sort(field, -1)\<close> on a string field: descending in the byte order of the strings.
      The order among documents with equal keys is the store's choice; the properties
      below do not depend on the one taken here.\<close>
  "sort_desc key xs = foldr (insert_desc key) xs []"

definition evaporation_dict :: "datetime EvaporationResult \<Rightarrow> string EvaporationResult" where
  \<comment> \<open>\<open>result.dict()\<close> followed by the assignment of the \<open>isoformat\<close> string.\<close>
  "evaporation_dict r =
     \<lparr> er_id = er_id r, evaporation_rate = evaporation_rate r,
       weather_input = weather_input r, penman_components = penman_components r,
       er_timestamp = isoformat (er_timestamp r) \<rparr>"

definition insert_evaporation :: "datetime EvaporationResult \<Rightarrow> db_state \<Rightarrow> db_state" where
  \<comment> \<open>Lines 203 to 205.\<close>
  "insert_evaporation result db =
     (let result_dict = evaporation_dict result
      in db \<lparr> evaporation_results := evaporation_results db @ [result_dict] \<rparr>)"

definition calculate_evaporation ::
  "WeatherInput \<Rightarrow> string \<Rightarrow> datetime \<Rightarrow> db_state
     \<Rightarrow> py_error + (datetime EvaporationResult \<times> db_state)" where
  "calculate_evaporation winput fresh_id now db =
     py_bind (new_evaporation_result winput fresh_id now) (\<lambda>result.
       Inr (result, insert_evaporation result db))"

definition storage_dict ::
  "datetime StoragePlanningResult \<Rightarrow> string StoragePlanningResult" where
  "storage_dict r =
     \<lparr> reservoir_capacity_needed = reservoir_capacity_needed r,
       seasonal_analysis = seasonal_analysis r,
       irrigation_recommendations = irrigation_recommendations r,
       water_balance = water_balance r,
       sp_id = sp_id r,
       evaporation_data = evaporation_dict (evaporation_data r),
       sp_timestamp = isoformat (sp_timestamp r) \<rparr>"

definition calculate_storage_planning_endpoint ::
  "WeatherInput \<Rightarrow> real option \<Rightarrow> string \<Rightarrow> datetime \<Rightarrow> string \<Rightarrow> datetime \<Rightarrow> db_state
     \<Rightarrow> py_error + (datetime StoragePlanningResult \<times> db_state)" where
  \<comment> \<open>\<open>surface_area\<close> is \<open>None\<close> when the request leaves the query parameter out; the
      declared default 1000 then takes its place. The two identifiers and the two
      timestamps are those of the evaporation record and of the planning record.\<close>
  "calculate_storage_planning_endpoint winput surface_area evap_id evap_now plan_id plan_now db =
     (let area = (case surface_area of None \<Rightarrow> 1000 | Some a \<Rightarrow> a) in
      py_bind (new_evaporation_result winput evap_id evap_now) (\<lambda>evaporation_result.
      py_bind (calculate_storage_planning evaporation_result area) (\<lambda>planning.
      let storage_result =
            \<lparr> reservoir_capacity_needed = reservoir_capacity_needed planning,
              seasonal_analysis = seasonal_analysis planning,
              irrigation_recommendations = irrigation_recommendations planning,
              water_balance = water_balance planning,
              sp_id = plan_id,
              evaporation_data = evaporation_result,
              sp_timestamp = plan_now \<rparr>;
          result_dict = storage_dict storage_result
      in Inr (storage_result,
              db \<lparr> storage_planning_results := storage_planning_results db @ [result_dict] \<rparr>))))"

definition evaporation_from_doc ::
  "string EvaporationResult \<Rightarrow> py_error + datetime EvaporationResult" where
  \<comment> \<open>The timestamp of a stored document is a string, so the \<open>isinstance\<close> test holds and
      \<open>fromisoformat\<close> runs; the model object is then built from the fields.\<close>
  "evaporation_from_doc doc =
     py_bind (fromisoformat (er_timestamp doc)) (\<lambda>ts.
       Inr \<lparr> er_id = er_id doc, evaporation_rate = evaporation_rate doc,
             weather_input = weather_input doc, penman_components = penman_components doc,
             er_timestamp = ts \<rparr>)"

definition get_evaporation_history :: "db_state \<Rightarrow> py_error + datetime EvaporationResult list" where
  \<comment> \<open>\<open>find().sort("timestamp", -1).limit(50).to_list(50)\<close>, then the two loops.\<close>
  "get_evaporation_history db =
     (let results = take 50 (take 50 (sort_desc er_timestamp (evaporation_results db)))
      in py_collect evaporation_from_doc results)"

definition storage_from_doc ::
  "string StoragePlanningResult \<Rightarrow> py_error + datetime StoragePlanningResult" where
  "storage_from_doc doc =
     py_bind (fromisoformat (sp_timestamp doc)) (\<lambda>ts.
     py_bind (evaporation_from_doc (evaporation_data doc)) (\<lambda>evap.
       Inr \<lparr> reservoir_capacity_needed = reservoir_capacity_needed doc,
             seasonal_analysis = seasonal_analysis doc,
             irrigation_recommendations = irrigation_recommendations doc,
             water_balance = water_balance doc,
             sp_id = sp_id doc,
             evaporation_data = evap,
             sp_timestamp = ts \<rparr>))"

definition get_storage_planning_history ::
  "db_state \<Rightarrow> py_error + datetime StoragePlanningResult list" where
  "get_storage_planning_history db =
     (let results = take 50 (take 50 (sort_desc sp_timestamp (storage_planning_results db)))
      in py_collect storage_from_doc results)"

definition status_dict :: "datetime StatusCheck \<Rightarrow> string StatusCheck" where
  "status_dict c =
     \<lparr> sc_id = sc_id c, client_name = client_name c,
       sc_timestamp = isoformat (sc_timestamp c) \<rparr>"

definition create_status_check ::
  "string \<Rightarrow> string \<Rightarrow> datetime \<Rightarrow> db_state \<Rightarrow> datetime StatusCheck \<times> db_state" where
  "create_status_check name fresh_id now db =
     (let status_obj = \<lparr> sc_id = fresh_id, client_name = name, sc_timestamp = now \<rparr>;
          status_obj_dict = status_dict status_obj
      in (status_obj, db \<lparr> status_checks := status_checks db @ [status_obj_dict] \<rparr>))"

definition status_from_doc :: "string StatusCheck \<Rightarrow> py_error + datetime StatusCheck" where
  "status_from_doc doc =
     py_bind (fromisoformat (sc_timestamp doc)) (\<lambda>ts.
       Inr \<lparr> sc_id = sc_id doc, client_name = client_name doc, sc_timestamp = ts \<rparr>)"

definition get_status_checks :: "db_state \<Rightarrow> py_error + datetime StatusCheck list" where
  \<comment> \<open>\<open>find().to_list(1000)\<close>: no sort, the first 1000 documents in the store's order.\<close>
  "get_status_checks db = py_collect status_from_doc (take 1000 (status_checks db))"

text \<open>
  The invariant of a store that only the handlers have written to: every stored timestamp
  is a string that \<open>isoformat\<close> writes for a valid timestamp, that is, it parses and prints
  back to itself.
\<close>

definition written_by_isoformat :: "string \<Rightarrow> bool" where
  "written_by_isoformat s =
     (case fromisoformat s of Inl e \<Rightarrow> False | Inr d \<Rightarrow> isoformat d = s)"

definition stored_by_handlers :: "db_state \<Rightarrow> bool" where
  "stored_by_handlers db =
     (list_all (\<lambda>d. written_by_isoformat (er_timestamp d)) (evaporation_results db) \<and>
      list_all (\<lambda>d. written_by_isoformat (sp_timestamp d) \<and>
                     written_by_isoformat (er_timestamp (evaporation_data d)))
        (storage_planning_results db) \<and>
      list_all (\<lambda>d. written_by_isoformat (sc_timestamp d)) (status_checks db))"


section \<open>Properties\<close>

subsection \<open>Rounding\<close>

lemma round_half_even_bounds:
  "\<bar>of_int (round_half_even x) - x\<bar> \<le> 1 / 2"
  unfolding round_half_even_def Let_def by (auto; linarith)



lemma round_half_even_int: "round_half_even (of_int k) = k"
  by (simp add: round_half_even_def)

lemma py_round_error: "\<bar>py_round x n - x\<bar> \<le> 1 / (2 * 10 ^ n)"
proof -
  have "py_round x n - x = (of_int (round_half_even (x * 10 ^ n)) - x * 10 ^ n) / 10 ^ n"
    by (simp add: py_round_def diff_divide_distrib)
  then have "\<bar>py_round x n - x\<bar>
      = \<bar>of_int (round_half_even (x * 10 ^ n)) - x * 10 ^ n\<bar> / 10 ^ n"
    by (simp only: abs_divide) simp
  also have "\<dots> \<le> 1 / 2 / 10 ^ n"
    by (rule divide_right_mono [OF round_half_even_bounds]) simp
  finally show ?thesis by simp
qed

lemma py_round_grid: "\<exists>k::int. py_round x n = of_int k / 10 ^ n"
  by (auto simp: py_round_def)

subsection \<open>The evaporation model\<close>

lemma py_bind_Inr [simp]: "py_bind (Inr v) f = f v"
  by (simp add: py_bind_def)

lemma py_bind_Inl [simp]: "py_bind (Inl e) f = Inl e"
  by (simp add: py_bind_def)

lemma py_div_nonzero: "b \<noteq> 0 \<Longrightarrow> py_div a b = Inr (a / b)"
  by (simp add: py_div_def)

lemma py_div_zero: "py_div a 0 = Inl ZeroDivisionError"
  by (simp add: py_div_def)

lemma spec_es_pos: "0 < spec_es T"
  by (simp add: spec_es_def)

lemma spec_delta_pos: "T + 237.3 \<noteq> 0 \<Longrightarrow> 0 < spec_delta T"
  using spec_es_pos [of T] by (simp add: spec_delta_def)

lemma spec_denominator_pos: "T + 237.3 \<noteq> 0 \<Longrightarrow> 0 < spec_delta T + 0.665"
  by (rule add_pos_pos [OF spec_delta_pos]) simp_all

lemma penman_body_eq:
  assumes "T + 237.3 \<noteq> 0"
  shows "penman_body T h w s =
    Inr \<lparr> psychrometric_constant = 0.665,
          es = spec_es T,
          ea = spec_ea T h,
          delta = spec_delta T,
          rn = spec_rn s,
          wind_function = spec_fu w,
          radiation_component = spec_radiation T s,
          aerodynamic_component = spec_aerodynamic T h w,
          evaporation = spec_radiation T s + spec_aerodynamic T h w \<rparr>"
proof -
  have q: "py_div (17.27 * T) (T + 237.3) = Inr (17.27 * T / (T + 237.3))"
    by (rule py_div_nonzero [OF assms])
  have rh: "py_div h 100.0 = Inr (h / 100)"
    by (simp add: py_div_def)
  have dl: "py_div (4098 * (0.6108 * exp (17.27 * T / (T + 237.3)))) ((T + 237.3) ^ 2)
              = Inr (spec_delta T)"
    using assms by (simp add: py_div_def spec_delta_def spec_es_def)
  have r: "py_div s 2.45 = Inr (spec_rn s)"
    by (simp add: py_div_def spec_rn_def)
  have nz: "spec_delta T + 0.665 \<noteq> 0"
    using spec_denominator_pos [OF assms] by simp
  have wr: "py_div (spec_delta T) (spec_delta T + 0.665)
              = Inr (spec_delta T / (spec_delta T + 0.665))"
    by (rule py_div_nonzero [OF nz])
  have wa: "py_div 0.665 (spec_delta T + 0.665) = Inr (0.665 / (spec_delta T + 0.665))"
    by (rule py_div_nonzero [OF nz])
  show ?thesis
    unfolding penman_body_def Let_def q py_bind_Inr rh dl r wr wa
    by (simp add: spec_es_def spec_ea_def spec_fu_def spec_radiation_def spec_aerodynamic_def)
qed

lemma penman_body_degenerate: "penman_body (- 237.3) h w s = Inl ZeroDivisionError"
  by (simp add: penman_body_def py_div_def)

lemma py_max_eq_max: "py_max a b = max a b"
  by (simp add: py_max_def max_def)

lemma calculate_penman_evaporation_eq:
  assumes "T + 237.3 \<noteq> 0"
  shows "calculate_penman_evaporation T h w s =
     Inr (max 0 (spec_radiation T s + spec_aerodynamic T h w),
          [(''radiation_component'', py_round (spec_radiation T s) 3),
           (''aerodynamic_component'', py_round (spec_aerodynamic T h w) 3),
           (''saturation_vapor_pressure'', py_round (spec_es T) 3),
           (''actual_vapor_pressure'', py_round (spec_ea T h) 3),
           (''vapor_pressure_deficit'', py_round (spec_es T - spec_ea T h) 3),
           (''slope_vapor_pressure'', py_round (spec_delta T) 3),
           (''wind_function'', py_round (spec_fu w) 3),
           (''net_radiation_equivalent'', py_round (spec_rn s) 3)])"
  unfolding calculate_penman_evaporation_def penman_body_eq [OF assms] py_bind_Inr
  by (simp add: components_def py_max_eq_max)








subsection \<open>The storage planning model\<close>





subsection \<open>The scenario at 25 degrees\<close>

text \<open>
  The exponential is bounded by its Taylor polynomial and the Lagrange remainder; the
  other quantities are rational functions of it, monotone on the interval obtained.
\<close>

lemma exp_taylor_bounds:
  fixes x :: real
  assumes "0 \<le> x" "x \<le> 2"
  shows "(\<Sum>m<n. x ^ m / fact m) \<le> exp x"
    and "exp x \<le> (\<Sum>m<n. x ^ m / fact m) + 9 * x ^ n / fact n"
proof -
  obtain t where t: "\<bar>t\<bar> \<le> \<bar>x\<bar>"
    and e: "exp x = (\<Sum>m<n. x ^ m / fact m) + exp t / fact n * x ^ n"
    using Maclaurin_exp_le [of x n] by blast
  have "0 \<le> exp t / fact n * x ^ n"
    using assms(1) by simp
  with e show "(\<Sum>m<n. x ^ m / fact m) \<le> exp x" by linarith
  have "t \<le> 2" using t assms by linarith
  then have "exp t \<le> exp 2" by simp
  also have "exp (2::real) = exp 1 * exp 1"
    by (simp add: exp_add [symmetric])
  also have "\<dots> \<le> 3 * 3"
    by (intro mult_mono exp_le) simp_all
  finally have "exp t \<le> 9" by simp
  then have "exp t / fact n * x ^ n \<le> 9 / fact n * x ^ n"
    using assms(1) by (intro mult_right_mono divide_right_mono) simp_all
  with e show "exp x \<le> (\<Sum>m<n. x ^ m / fact m) + 9 * x ^ n / fact n" by simp
qed

lemma exp_tetens_25: "5.18627 < exp (8635 / 5246 :: real)" "exp (8635 / 5246 :: real) < 5.18628"
proof -
  have a: "(0::real) \<le> 8635 / 5246" "(8635 / 5246 :: real) \<le> 2" by simp_all
  have "(5.18627::real) < (\<Sum>m<14. (8635 / 5246) ^ m / fact m)"
    by (simp add: lessThan_nat_numeral sum.lessThan_Suc fact_numeral field_simps)
  with exp_taylor_bounds(1) [OF a, of 14] show "5.18627 < exp (8635 / 5246 :: real)"
    by linarith
  have "(\<Sum>m<14. (8635 / 5246) ^ m / fact m) + 9 * (8635 / 5246) ^ 14 / fact 14 < (5.18628::real)"
    by (simp add: lessThan_nat_numeral sum.lessThan_Suc fact_numeral field_simps)
  with exp_taylor_bounds(2) [OF a, of 14] show "exp (8635 / 5246 :: real) < 5.18628"
    by linarith
qed

lemma round_half_even_between:
  assumes "of_int k - 1 / 2 < x" and "x < of_int k + 1 / 2"
  shows "round_half_even x = k"
proof (cases "x < of_int k")
  case True
  then have f: "\<lfloor>x\<rfloor> = k - 1"
    using assms(1) by (intro floor_unique) simp_all
  show ?thesis
    using assms(1) True by (simp add: round_half_even_def f Let_def)
next
  case False
  then have f: "\<lfloor>x\<rfloor> = k"
    using assms(2) by (intro floor_unique) simp_all
  show ?thesis
    using assms(2) False by (simp add: round_half_even_def f Let_def)
qed

lemma py_round_3_between:
  assumes "(of_int k - 1 / 2) / 1000 < x" and "x < (of_int k + 1 / 2) / 1000"
  shows "py_round x 3 = of_int k / 1000"
proof -
  have "of_int k - 1 / 2 < x * 10 ^ 3" "x * 10 ^ 3 < of_int k + 1 / 2"
    using assms by (simp_all add: field_simps)
  then have "round_half_even (x * 10 ^ 3) = k"
    by (rule round_half_even_between)
  then show ?thesis by (simp add: py_round_def)
qed

lemma scenario_es: "3.16777 < spec_es 25" "spec_es 25 < 3.16778"
proof -
  have e: "spec_es 25 = 0.6108 * exp (8635 / 5246)"
    by (simp add: spec_es_def)
  show "3.16777 < spec_es 25" "spec_es 25 < 3.16778"
    unfolding e using exp_tetens_25 by simp_all
qed

lemma scenario_delta: "0.18868 < spec_delta 25" "spec_delta 25 < 0.18869"
  using scenario_es by (simp_all add: spec_delta_def power2_eq_square)

lemma scenario_radiation: "1.8042 < spec_radiation 25 20" "spec_radiation 25 20 < 1.8043"
proof -
  have p: "0 < spec_delta 25 + 0.665" using scenario_delta(1) by simp
  have e: "spec_radiation 25 20 = spec_delta 25 * (20 / 2.45) / (spec_delta 25 + 0.665)"
    by (simp add: spec_radiation_def spec_rn_def)
  show "1.8042 < spec_radiation 25 20"
    unfolding e using scenario_es(1) p
    by (simp add: pos_less_divide_eq spec_delta_def power2_eq_square)
  show "spec_radiation 25 20 < 1.8043"
    unfolding e using scenario_es(2) p
    by (simp add: pos_divide_less_eq spec_delta_def power2_eq_square)
qed

lemma scenario_aerodynamic:
  "5.3379 < spec_aerodynamic 25 60 2" "spec_aerodynamic 25 60 2 < 5.3381"
proof -
  have p: "0 < spec_delta 25 + 0.665" using scenario_delta(1) by simp
  have e: "spec_aerodynamic 25 60 2 =
      0.665 * spec_fu 2 * (spec_es 25 - spec_ea 25 60) / (spec_delta 25 + 0.665)"
    by (simp add: spec_aerodynamic_def)
  show "5.3379 < spec_aerodynamic 25 60 2"
    unfolding e using scenario_es(1) p
    by (simp add: pos_less_divide_eq spec_delta_def spec_fu_def spec_ea_def power2_eq_square)
  show "spec_aerodynamic 25 60 2 < 5.3381"
    unfolding e using scenario_es(2) p
    by (simp add: pos_divide_less_eq spec_delta_def spec_fu_def spec_ea_def power2_eq_square)
qed

lemma scenario_total:
  "7.1421 < spec_radiation 25 20 + spec_aerodynamic 25 60 2"
  "spec_radiation 25 20 + spec_aerodynamic 25 60 2 < 7.1424"
  using scenario_radiation scenario_aerodynamic by simp_all

lemma scenario_rounded:
  "py_round (spec_radiation 25 20) 3 = 1.804"
  "py_round (spec_aerodynamic 25 60 2) 3 = 5.338"
  "py_round (spec_es 25) 3 = 3.168"
  "py_round (spec_ea 25 60) 3 = 1.901"
  "py_round (spec_es 25 - spec_ea 25 60) 3 = 1.267"
  "py_round (spec_delta 25) 3 = 0.189"
  "py_round (spec_fu 2) 3 = 5.408"
  "py_round (spec_rn 20) 3 = 8.163"
  "py_round (max 0 (spec_radiation 25 20 + spec_aerodynamic 25 60 2)) 3 = 7.142"
proof -
  show "py_round (spec_radiation 25 20) 3 = 1.804"
    using py_round_3_between [of 1804 "spec_radiation 25 20"] scenario_radiation by simp
  show "py_round (spec_aerodynamic 25 60 2) 3 = 5.338"
    using py_round_3_between [of 5338 "spec_aerodynamic 25 60 2"] scenario_aerodynamic by simp
  show "py_round (spec_es 25) 3 = 3.168"
    using py_round_3_between [of 3168 "spec_es 25"] scenario_es by simp
  show "py_round (spec_ea 25 60) 3 = 1.901"
    using py_round_3_between [of 1901 "spec_ea 25 60"] scenario_es by (simp add: spec_ea_def)
  show "py_round (spec_es 25 - spec_ea 25 60) 3 = 1.267"
    using py_round_3_between [of 1267 "spec_es 25 - spec_ea 25 60"] scenario_es
    by (simp add: spec_ea_def)
  show "py_round (spec_delta 25) 3 = 0.189"
    using py_round_3_between [of 189 "spec_delta 25"] scenario_delta by simp
  show "py_round (spec_fu 2) 3 = 5.408"
    using py_round_3_between [of 5408 "spec_fu 2"] by (simp add: spec_fu_def)
  show "py_round (spec_rn 20) 3 = 8.163"
    using py_round_3_between [of 8163 "spec_rn 20"] by (simp add: spec_rn_def)
  have m: "max 0 (spec_radiation 25 20 + spec_aerodynamic 25 60 2)
      = spec_radiation 25 20 + spec_aerodynamic 25 60 2"
    using scenario_total(1) by simp
  show "py_round (max 0 (spec_radiation 25 20 + spec_aerodynamic 25 60 2)) 3 = 7.142"
    unfolding m
    using py_round_3_between [of 7142 "spec_radiation 25 20 + spec_aerodynamic 25 60 2"]
      scenario_total by simp
qed

lemma scenario_result:
  "calculate_penman_evaporation 25 60 2 20 =
     Inr (spec_radiation 25 20 + spec_aerodynamic 25 60 2,
          [(''radiation_component'', 1.804),
           (''aerodynamic_component'', 5.338),
           (''saturation_vapor_pressure'', 3.168),
           (''actual_vapor_pressure'', 1.901),
           (''vapor_pressure_deficit'', 1.267),
           (''slope_vapor_pressure'', 0.189),
           (''wind_function'', 5.408),
           (''net_radiation_equivalent'', 8.163)])"
proof -
  have nz: "(25::real) + 237.3 \<noteq> 0" by simp
  have m: "max 0 (spec_radiation 25 20 + spec_aerodynamic 25 60 2)
      = spec_radiation 25 20 + spec_aerodynamic 25 60 2"
    using scenario_total(1) by simp
  show ?thesis
    unfolding calculate_penman_evaporation_eq [OF nz] m scenario_rounded(1-8) by (rule refl)
qed

text \<open>
  Claim C6, as amended. At temperature 25, humidity 60, wind speed 2 and solar radiation 20
  the model reports \<open>es = 3.168\<close>, \<open>ea = 1.901\<close>, \<open>delta = 0.189\<close>, \<open>rn = 8.163\<close> and the
  wind function \<open>f(u) = 5.408\<close> (each rounded to 3 decimals), and the rate it returns is
  strictly positive: it lies between 7.1421 and 7.1424 and rounds to 7.142.
\<close>

theorem scenario_25_60_2_20:
  "\<exists>rate. calculate_penman_evaporation 25 60 2 20 =
       Inr (rate,
            [(''radiation_component'', 1.804),
             (''aerodynamic_component'', 5.338),
             (''saturation_vapor_pressure'', 3.168),
             (''actual_vapor_pressure'', 1.901),
             (''vapor_pressure_deficit'', 1.267),
             (''slope_vapor_pressure'', 0.189),
             (''wind_function'', 5.408),
             (''net_radiation_equivalent'', 8.163)]) \<and>
     0 < rate \<and> 7.1421 < rate \<and> rate < 7.1424 \<and> py_round rate 3 = 7.142"
proof -
  have m: "max 0 (spec_radiation 25 20 + spec_aerodynamic 25 60 2)
      = spec_radiation 25 20 + spec_aerodynamic 25 60 2"
    using scenario_total(1) by simp
  have "0 < spec_radiation 25 20 + spec_aerodynamic 25 60 2"
    using scenario_total(1) by simp
  with scenario_result scenario_total scenario_rounded(9) [unfolded m] show ?thesis
    by blast
qed

text \<open>
  The claim as first stated gives the wind function as about 3.208. The model computes
  \<open>2.6 * (1 + 0.54 * 2) = 5.408\<close>.
\<close>

theorem scenario_wind_function_counterexample:
  "py_getitem (snd (projr (calculate_penman_evaporation 25 60 2 20))) ''wind_function''
     = Inr 5.408 \<and> (5.408::real) \<noteq> 3.208"
  unfolding scenario_result by (simp add: py_getitem_def)

subsection \<open>The errors of the evaporation model\<close>

text \<open>
  The checked body raises where the first division has a zero divisor, then where
  \<open>math.exp\<close> overflows, then where the square overflows, and otherwise computes what the
  unchecked body computes.
\<close>

lemma penman_body_checked_eq:
  "penman_body_checked T h w s =
     (if T + 237.3 = 0 then Inl ZeroDivisionError
      else if float_overflows (exp (17.27 * T / (T + 237.3))) then Inl OverflowError
      else if float_overflows ((T + 237.3) ^ 2) then Inl OverflowError
      else penman_body T h w s)"
proof (cases "T + 237.3 = 0")
  case True
  then show ?thesis
    by (simp add: penman_body_checked_def py_div_def)
next
  case nz: False
  have q: "py_div (17.27 * T) (T + 237.3) = Inr (17.27 * T / (T + 237.3))"
    by (rule py_div_nonzero [OF nz])
  have rh: "py_div h 100.0 = Inr (h / 100)"
    by (simp add: py_div_def)
  show ?thesis
  proof (cases "float_overflows (exp (17.27 * T / (T + 237.3)))")
    case True
    with nz show ?thesis
      unfolding penman_body_checked_def Let_def q py_bind_Inr
      by (simp add: py_exp_def)
  next
    case e: False
    show ?thesis
    proof (cases "float_overflows ((T + 237.3) ^ 2)")
      case True
      with nz e show ?thesis
        unfolding penman_body_checked_def Let_def q py_bind_Inr
        by (simp add: py_exp_def py_pow2_def py_div_def)
    next
      case p: False
      have pe: "py_exp (17.27 * T / (T + 237.3)) = Inr (exp (17.27 * T / (T + 237.3)))"
        using e by (simp add: py_exp_def)
      have pp: "py_pow2 (T + 237.3) = Inr ((T + 237.3) ^ 2)"
        using p by (simp add: py_pow2_def)
      have "penman_body_checked T h w s = penman_body T h w s"
        unfolding penman_body_checked_def penman_body_def Let_def q py_bind_Inr pe pp rh
        by (rule refl)
      with nz e p show ?thesis by simp
    qed
  qed
qed

text \<open>
  Bounds on \<open>exp\<close> at natural numbers, from \<open>8 / 3 \<le> exp 1 \<le> 3\<close>. The quotient
  \<open>17.27 * T / (T + 237.3)\<close> is at least 736 for \<open>T\<close> from \<open>-243\<close> up to \<open>-237.3\<close>,
  below 18 above \<open>-237.3\<close> and at most 630 from \<open>-244\<close> down.
\<close>

lemma exp_nat_lower: "(8 / 3) ^ n \<le> exp (real n)"
proof -
  have "(\<Sum>m<4. (1::real) ^ m / fact m) \<le> exp 1"
    by (rule exp_taylor_bounds(1)) simp_all
  moreover have "(\<Sum>m<4. (1::real) ^ m / fact m) = 8 / 3"
    by (simp add: lessThan_nat_numeral sum.lessThan_Suc fact_numeral)
  ultimately have "(8 / 3 :: real) \<le> exp 1" by simp
  then have "(8 / 3 :: real) ^ n \<le> exp 1 ^ n"
    by (intro power_mono) simp_all
  also have "exp 1 ^ n = exp (real n)"
    using exp_of_nat_mult [of n "1::real"] by simp
  finally show ?thesis .
qed

lemma exp_nat_upper: "exp (real n) \<le> 3 ^ n"
proof -
  have "exp (real n) = exp 1 ^ n"
    using exp_of_nat_mult [of n "1::real"] by simp
  also have "\<dots> \<le> 3 ^ n"
    by (intro power_mono exp_le) simp
  finally show ?thesis .
qed

lemma exp_736_overflows: "(2::real) ^ 1024 \<le> exp 736"
proof -
  have "(2::real) ^ 32 \<le> (8 / 3) ^ 23" by (simp add: power_divide)
  then have "((2::real) ^ 32) ^ 32 \<le> ((8 / 3) ^ 23) ^ 32"
    by (intro power_mono) simp_all
  then have "(2::real) ^ 1024 \<le> (8 / 3) ^ 736"
    by (simp only: power_mult [symmetric]) simp
  also have "\<dots> \<le> exp (real 736)" by (rule exp_nat_lower)
  finally show ?thesis by simp
qed

lemma overflow_band:
  assumes "- 243 \<le> T" and "T < - 237.3"
  shows "float_overflows (exp (17.27 * T / (T + 237.3)))"
proof -
  have neg: "T + 237.3 < 0" using assms(2) by simp
  have "736 \<le> 17.27 * T / (T + 237.3)"
    using neg assms(1) by (simp add: neg_le_divide_eq)
  then have "exp 736 \<le> exp (17.27 * T / (T + 237.3))" by simp
  with exp_736_overflows have "(2::real) ^ 1024 \<le> exp (17.27 * T / (T + 237.3))"
    by (rule order_trans)
  then show ?thesis
    by (simp add: float_overflows_def)
qed

lemma no_overflow_above:
  assumes "- 237.3 < T"
  shows "\<not> float_overflows (exp (17.27 * T / (T + 237.3)))"
proof -
  have pos: "0 < T + 237.3" using assms by simp
  have "17.27 * T / (T + 237.3) \<le> 18"
    using pos by (simp add: pos_divide_le_eq)
  then have "exp (17.27 * T / (T + 237.3)) \<le> exp (real 18)" by simp
  also have "\<dots> \<le> 3 ^ 18" by (rule exp_nat_upper)
  finally show ?thesis
    by (simp add: float_overflows_def)
qed

lemma no_overflow_below:
  assumes "T \<le> - 244"
  shows "\<not> float_overflows (exp (17.27 * T / (T + 237.3)))"
proof -
  have neg: "T + 237.3 < 0" using assms by simp
  have "17.27 * T / (T + 237.3) \<le> 630"
    using neg assms by (simp add: neg_divide_le_eq)
  then have "exp (17.27 * T / (T + 237.3)) \<le> exp (real 630)" by simp
  also have "\<dots> \<le> 3 ^ 630" by (rule exp_nat_upper)
  finally show ?thesis
    by (simp add: float_overflows_def)
qed

lemma square_in_range:
  assumes "\<bar>T\<bar> \<le> 10 ^ 150"
  shows "\<not> float_overflows ((T + 237.3) ^ 2)"
proof -
  have "\<bar>T + 237.3\<bar> \<le> 2 * 10 ^ 150"
    using assms by (simp add: abs_le_iff)
  then have "\<bar>T + 237.3\<bar> ^ 2 \<le> (2 * 10 ^ 150) ^ 2"
    by (intro power_mono) simp_all
  then have "(T + 237.3) ^ 2 \<le> (2 * 10 ^ 150) ^ 2" by simp
  then show ?thesis
    by (simp add: float_overflows_def)
qed

lemma square_overflows:
  assumes "2 * 10 ^ 154 \<le> \<bar>T\<bar>"
  shows "float_overflows ((T + 237.3) ^ 2)"
proof -
  have "19 * 10 ^ 153 \<le> \<bar>T + 237.3\<bar>"
    using assms by (simp add: abs_le_iff)
  then have "(19 * 10 ^ 153) ^ 2 \<le> \<bar>T + 237.3\<bar> ^ 2"
    by (intro power_mono) simp_all
  then have "(19 * 10 ^ 153) ^ 2 \<le> (T + 237.3) ^ 2" by simp
  moreover have "(2::real) ^ 1024 - 2 ^ 970 \<le> (19 * 10 ^ 153) ^ 2" by simp
  ultimately show ?thesis
    by (simp add: float_overflows_def)
qed

lemma calculate_penman_evaporation_checked_eq:
  "calculate_penman_evaporation_checked T h w s =
     (if T + 237.3 = 0 then Inl ZeroDivisionError
      else if float_overflows (exp (17.27 * T / (T + 237.3))) then Inl OverflowError
      else if float_overflows ((T + 237.3) ^ 2) then Inl OverflowError
      else calculate_penman_evaporation T h w s)"
  unfolding calculate_penman_evaporation_checked_def calculate_penman_evaporation_def
    penman_body_checked_eq
  by simp

lemma calculate_penman_evaporation_returns:
  "T + 237.3 \<noteq> 0 \<Longrightarrow> \<exists>r. calculate_penman_evaporation T h w s = Inr r"
  by (simp add: calculate_penman_evaporation_eq)

lemma checked_overflow_band:
  assumes "- 243 \<le> T" and "T < - 237.3"
  shows "calculate_penman_evaporation_checked T h w s = Inl OverflowError"
  using overflow_band [OF assms] assms(2)
  by (simp add: calculate_penman_evaporation_checked_eq)

lemma checked_square_overflow:
  assumes "2 * 10 ^ 154 \<le> \<bar>T\<bar>"
  shows "calculate_penman_evaporation_checked T h w s = Inl OverflowError"
proof -
  have "T + 237.3 \<noteq> 0" using assms by (auto simp: abs_le_iff)
  with square_overflows [OF assms] show ?thesis
    by (simp add: calculate_penman_evaporation_checked_eq)
qed

lemma checked_in_range:
  assumes "- 237.3 < T \<or> T \<le> - 244" and "\<bar>T\<bar> \<le> 10 ^ 150"
  shows "calculate_penman_evaporation_checked T h w s = calculate_penman_evaporation T h w s"
proof -
  from assms(1) have nz: "T + 237.3 \<noteq> 0" by auto
  from assms(1) have "\<not> float_overflows (exp (17.27 * T / (T + 237.3)))"
    using no_overflow_above [of T] no_overflow_below [of T] by blast
  with nz square_in_range [OF assms(2)] show ?thesis
    by (simp add: calculate_penman_evaporation_checked_eq)
qed

text \<open>
  Claim C7, as amended. A division by zero arises exactly at the temperature \<open>-237.3\<close>,
  where the first division of the body raises \<open>ZeroDivisionError\<close>, which nothing catches.
  It is not the only error: \<open>math.exp\<close> and \<open>**\<close> raise \<open>OverflowError\<close>, unguarded as
  well, when their result is beyond the largest float. The function raises \<open>OverflowError\<close>
  exactly at the temperatures other than \<open>-237.3\<close> where one of the two results is out of
  range, and returns exactly where none of the three conditions holds; what it returns
  there is what the unchecked function returns. In particular it raises \<open>OverflowError\<close>
  at every temperature from \<open>-243\<close> up to, but not including, \<open>-237.3\<close>, and at every
  temperature of magnitude \<open>2 * 10 ^ 154\<close> or more, and it returns at every temperature of
  magnitude at most \<open>10 ^ 150\<close> that is above \<open>-237.3\<close> or at most \<open>-244\<close>. Humidity,
  wind speed and solar radiation raise nothing.
\<close>

theorem penman_error_conditions:
  "(calculate_penman_evaporation_checked T h w s = Inl ZeroDivisionError) = (T = - 237.3) \<and>
   (calculate_penman_evaporation_checked T h w s = Inl OverflowError) =
     (T \<noteq> - 237.3 \<and>
      (float_overflows (exp (17.27 * T / (T + 237.3))) \<or> float_overflows ((T + 237.3) ^ 2))) \<and>
   (\<exists>r. calculate_penman_evaporation_checked T h w s = Inr r) =
     (T \<noteq> - 237.3 \<and> \<not> float_overflows (exp (17.27 * T / (T + 237.3))) \<and>
      \<not> float_overflows ((T + 237.3) ^ 2)) \<and>
   (\<forall>r. calculate_penman_evaporation_checked T h w s = Inr r \<longrightarrow>
      calculate_penman_evaporation T h w s = Inr r) \<and>
   (- 243 \<le> T \<and> T < - 237.3 \<longrightarrow>
      calculate_penman_evaporation_checked T h w s = Inl OverflowError) \<and>
   (2 * 10 ^ 154 \<le> \<bar>T\<bar> \<longrightarrow>
      calculate_penman_evaporation_checked T h w s = Inl OverflowError) \<and>
   ((- 237.3 < T \<or> T \<le> - 244) \<and> \<bar>T\<bar> \<le> 10 ^ 150 \<longrightarrow>
      (\<exists>r. calculate_penman_evaporation_checked T h w s = Inr r))"
proof -
  have z: "(T + 237.3 = 0) = (T = - 237.3)" by auto
  have ret: "\<exists>r. calculate_penman_evaporation T h w s = Inr r" if "T + 237.3 \<noteq> 0"
    using that by (rule calculate_penman_evaporation_returns)
  have a: "(calculate_penman_evaporation_checked T h w s = Inl ZeroDivisionError) = (T = - 237.3)"
    using ret unfolding calculate_penman_evaporation_checked_eq z [symmetric] by auto
  have b: "(calculate_penman_evaporation_checked T h w s = Inl OverflowError) =
     (T \<noteq> - 237.3 \<and>
      (float_overflows (exp (17.27 * T / (T + 237.3))) \<or> float_overflows ((T + 237.3) ^ 2)))"
    using ret unfolding calculate_penman_evaporation_checked_eq z [symmetric] by auto
  have c: "(\<exists>r. calculate_penman_evaporation_checked T h w s = Inr r) =
     (T \<noteq> - 237.3 \<and> \<not> float_overflows (exp (17.27 * T / (T + 237.3))) \<and>
      \<not> float_overflows ((T + 237.3) ^ 2))"
    using ret unfolding calculate_penman_evaporation_checked_eq z [symmetric] by auto
  have d: "\<forall>r. calculate_penman_evaporation_checked T h w s = Inr r \<longrightarrow>
      calculate_penman_evaporation T h w s = Inr r"
    unfolding calculate_penman_evaporation_checked_eq by (auto split: if_splits)
  have e: "(\<exists>r. calculate_penman_evaporation_checked T h w s = Inr r)"
    if "- 237.3 < T \<or> T \<le> - 244" "\<bar>T\<bar> \<le> 10 ^ 150"
  proof -
    from that(1) have "T + 237.3 \<noteq> 0" by auto
    from ret [OF this] checked_in_range [OF that] show ?thesis by simp
  qed
  from a b c d e checked_overflow_band [of T h w s] checked_square_overflow [of T h w s]
  show ?thesis by blast
qed

theorem penman_error_conditions_witness:
  "((- 243 \<le> (- 240 :: real) \<and> (- 240 :: real) < - 237.3) \<and>
     calculate_penman_evaporation_checked (- 240) 50 2 20 = Inl OverflowError) \<and>
   (2 * 10 ^ 154 \<le> \<bar>10 ^ 155 :: real\<bar> \<and>
     calculate_penman_evaporation_checked (10 ^ 155) 50 2 20 = Inl OverflowError) \<and>
   (((- 237.3 < (25 :: real)) \<and> \<bar>25 :: real\<bar> \<le> 10 ^ 150) \<and>
     (\<exists>r. calculate_penman_evaporation_checked 25 60 2 20 = Inr r \<and>
          calculate_penman_evaporation 25 60 2 20 = Inr r)) \<and>
   calculate_penman_evaporation_checked (- 237.3) 50 2 20 = Inl ZeroDivisionError"
proof -
  have h1: "- 243 \<le> (- 240 :: real) \<and> (- 240 :: real) < - 237.3" by simp
  have h2: "2 * 10 ^ 154 \<le> \<bar>10 ^ 155 :: real\<bar>" by simp
  have h3: "(- 237.3 < (25 :: real) \<or> (25 :: real) \<le> - 244) \<and> \<bar>25 :: real\<bar> \<le> 10 ^ 150"
    by simp
  have h3': "(- 237.3 < (25 :: real)) \<and> \<bar>25 :: real\<bar> \<le> 10 ^ 150" by simp
  note t1 = penman_error_conditions [of "- 240" 50 2 20]
  note t2 = penman_error_conditions [of "10 ^ 155" 50 2 20]
  note t3 = penman_error_conditions [of 25 60 2 20]
  note t4 = penman_error_conditions [of "- 237.3" 50 2 20]
  from t1 h1 have r1: "calculate_penman_evaporation_checked (- 240) 50 2 20 = Inl OverflowError"
    by blast
  from t2 h2 have r2:
    "calculate_penman_evaporation_checked (10 ^ 155) 50 2 20 = Inl OverflowError"
    by blast
  from t3 h3 obtain r where r: "calculate_penman_evaporation_checked 25 60 2 20 = Inr r"
    by blast
  with t3 have r': "calculate_penman_evaporation 25 60 2 20 = Inr r" by blast
  from t4 have r4: "calculate_penman_evaporation_checked (- 237.3) 50 2 20 = Inl ZeroDivisionError"
    by blast
  from h1 r1 h2 r2 h3' r r' r4 show ?thesis by blast
qed

text \<open>
  Claim C7 as stated fails at temperature \<open>-240\<close>, which is not \<open>-237.3\<close>: the quotient is
  \<open>17.27 * 240 / 2.7\<close>, above 1535, and \<open>math.exp\<close> raises \<open>OverflowError\<close>.
\<close>

theorem overflow_error_counterexample:
  "calculate_penman_evaporation_checked (- 240) 50 2 20 = Inl OverflowError \<and>
   (- 240 :: real) \<noteq> - 237.3"
proof -
  have "- 243 \<le> (- 240 :: real)" "(- 240 :: real) < - 237.3" by simp_all
  from checked_overflow_band [OF this] show ?thesis by simp
qed

text \<open>
  Wherever the checked function returns, the rate it returns is not negative.
\<close>

lemma checked_rate_nonneg:
  assumes "calculate_penman_evaporation_checked T h w s = Inr (rate, comps)"
  shows "0 \<le> rate"
proof -
  from assms have nz: "T + 237.3 \<noteq> 0"
    and r: "calculate_penman_evaporation T h w s = Inr (rate, comps)"
    unfolding calculate_penman_evaporation_checked_eq by (auto split: if_splits)
  from r show ?thesis
    unfolding calculate_penman_evaporation_eq [OF nz] by auto
qed

subsection \<open>Timestamps as strings\<close>

lemma dec_small: "n < 10 \<Longrightarrow> dec n = [digit_char n]"
  by simp

lemma dec_large: "\<not> n < 10 \<Longrightarrow> dec n = dec (n div 10) @ [digit_char (n mod 10)]"
  by simp

declare dec.simps [simp del]

lemma length_dec_le: "0 < w \<Longrightarrow> n < 10 ^ w \<Longrightarrow> length (dec n) \<le> w"
proof (induction w arbitrary: n)
  case 0
  then show ?case by simp
next
  case (Suc w)
  show ?case
  proof (cases "n < 10")
    case True
    then show ?thesis by (simp add: dec_small)
  next
    case False
    with Suc.prems have w: "0 < w" by (cases w) auto
    from Suc.prems have "n div 10 < 10 ^ w"
      by (simp add: less_mult_imp_div_less mult.commute)
    from Suc.IH [OF w this] False show ?thesis by (simp add: dec_large)
  qed
qed

lemma digit_char_0: "digit_char 0 = CHR ''0''"
proof -
  have "char_of (of_char (CHR ''0'') :: nat) = CHR ''0''" by (rule char_of_char)
  then show ?thesis by (simp add: digit_char_def)
qed

lemma zpad_step:
  assumes "0 < w" and "n < 10 ^ Suc w"
  shows "zpad (Suc w) n = zpad w (n div 10) @ [digit_char (n mod 10)]"
proof (cases "n < 10")
  case True
  obtain v where v: "w = Suc v" using assms(1) by (cases w) auto
  have "replicate w (CHR ''0'') = replicate v (CHR ''0'') @ [CHR ''0'']"
    unfolding v by (simp add: replicate_append_same)
  with True show ?thesis by (simp add: zpad_def dec_small v digit_char_0)
next
  case False
  from assms(2) have "n div 10 < 10 ^ w"
    by (simp add: less_mult_imp_div_less mult.commute)
  from length_dec_le [OF assms(1) this] False show ?thesis
    by (simp add: zpad_def dec_large Suc_diff_le)
qed

lemma zpad_one: "n < 10 \<Longrightarrow> zpad (Suc 0) n = [digit_char n]"
  by (simp add: zpad_def dec_small)

lemma length_zpad: "0 < w \<Longrightarrow> n < 10 ^ w \<Longrightarrow> length (zpad w n) = w"
  using length_dec_le [of w n] by (simp add: zpad_def)

lemma digit_val_digit_char: "d < 10 \<Longrightarrow> digit_val (digit_char d) = Some d"
  by (simp add: digit_val_def digit_char_def Let_def)

lemma digit_char_less: "a < 10 \<Longrightarrow> b < 10 \<Longrightarrow> digit_char a < digit_char b \<longleftrightarrow> a < b"
  by (simp add: digit_char_def less_char_def)

lemma digit_char_eq: "a < 10 \<Longrightarrow> b < 10 \<Longrightarrow> digit_char a = digit_char b \<longleftrightarrow> a = b"
  using digit_val_digit_char by (metis option.inject)

lemma read_digits_all:
  "read_digits k acc xs = Some (v, []) \<Longrightarrow> read_digits (k + j) acc (xs @ ys) = read_digits j v ys"
proof (induction k acc xs rule: read_digits.induct)
  case (1 acc s)
  then show ?case by simp
next
  case (2 k acc)
  then show ?case by simp
next
  case (3 k acc c s)
  then show ?case by (simp split: option.splits)
qed

lemma read_digits_zpad_all:
  assumes "0 < w" and "n < 10 ^ w"
  shows "read_digits w acc (zpad w n) = Some (acc * 10 ^ w + n, [])"
  using assms
proof (induction w arbitrary: n acc rule: nat_induct_non_zero)
  case 1
  then show ?case by (simp add: zpad_one digit_val_digit_char)
next
  case (Suc w)
  from Suc.prems have small: "n div 10 < 10 ^ w"
    by (simp add: less_mult_imp_div_less mult.commute)
  have "read_digits (w + 1) acc (zpad w (n div 10) @ [digit_char (n mod 10)])
      = read_digits 1 (acc * 10 ^ w + n div 10) [digit_char (n mod 10)]"
    by (rule read_digits_all [OF Suc.IH [OF small]])
  also have "\<dots> = Some (10 * (acc * 10 ^ w + n div 10) + n mod 10, [])"
    by (simp add: digit_val_digit_char)
  also have "10 * (acc * 10 ^ w + n div 10) + n mod 10 = acc * 10 ^ Suc w + n"
    by (simp add: algebra_simps)
  finally show ?case
    using zpad_step [OF Suc.hyps Suc.prems] by simp
qed

lemma read_digits_zpad:
  assumes "0 < w" and "n < 10 ^ w"
  shows "read_digits w 0 (zpad w n @ rest) = Some (n, rest)"
  using read_digits_all [OF read_digits_zpad_all [OF assms, of 0], of 0 rest] by simp

lemma less_append_same_length:
  fixes xs ys :: "'a::order list"
  assumes "length xs = length ys"
  shows "xs @ u < ys @ v \<longleftrightarrow> xs < ys \<or> xs = ys \<and> u < v"
  using assms by (induction xs ys rule: list_induct2) auto

lemma div_mod_lex:
  fixes a b :: nat
  shows "a < b \<longleftrightarrow> a div 10 < b div 10 \<or> a div 10 = b div 10 \<and> a mod 10 < b mod 10"
proof -
  define qa ra qb rb where "qa = a div 10" and "ra = a mod 10" and "qb = b div 10"
    and "rb = b mod 10"
  have "a = 10 * qa + ra" "b = 10 * qb + rb" "ra < 10" "rb < 10"
    by (simp_all add: qa_def ra_def qb_def rb_def)
  then have "a < b \<longleftrightarrow> qa < qb \<or> qa = qb \<and> ra < rb"
    by auto
  then show ?thesis by (simp only: qa_def ra_def qb_def rb_def)
qed

lemma zpad_less_iff:
  assumes "0 < w" and "a < 10 ^ w" and "b < 10 ^ w"
  shows "zpad w a < zpad w b \<longleftrightarrow> a < b"
  using assms
proof (induction w arbitrary: a b rule: nat_induct_non_zero)
  case 1
  then show ?case by (simp add: zpad_one digit_char_less)
next
  case (Suc w)
  from Suc.prems have small: "a div 10 < 10 ^ w" "b div 10 < 10 ^ w"
    by (simp_all add: less_mult_imp_div_less mult.commute)
  have len: "length (zpad w (a div 10)) = length (zpad w (b div 10))"
    using small Suc.hyps by (simp add: length_zpad)
  have inj: "zpad w (a div 10) = zpad w (b div 10) \<longleftrightarrow> a div 10 = b div 10"
    using Suc.IH [OF small] Suc.IH [OF small(2) small(1)] by (metis less_irrefl linorder_neqE_nat)
  have "zpad (Suc w) a < zpad (Suc w) b \<longleftrightarrow>
      a div 10 < b div 10 \<or> a div 10 = b div 10 \<and> a mod 10 < b mod 10"
    unfolding zpad_step [OF Suc.hyps Suc.prems(1)] zpad_step [OF Suc.hyps Suc.prems(2)]
      less_append_same_length [OF len] Suc.IH [OF small] inj
    by (simp add: digit_char_less)
  also have "\<dots> \<longleftrightarrow> a < b"
    by (rule div_mod_lex [symmetric])
  finally show ?case .
qed

lemma zpad_eq_iff:
  assumes "0 < w" and "a < 10 ^ w" and "b < 10 ^ w"
  shows "zpad w a = zpad w b \<longleftrightarrow> a = b"
  using zpad_less_iff [OF assms] zpad_less_iff [OF assms(1) assms(3) assms(2)]
  by (metis less_irrefl linorder_neqE_nat)

lemma expect_Cons: "expect [c] (c # rest) = Some rest"
  by (simp add: expect_def)

lemma days_in_month_le: "days_in_month y m \<le> 31"
  by (simp add: days_in_month_def)

lemma valid_datetime_bounds:
  assumes "valid_datetime d"
  shows "year d < 10 ^ 4" "month d < 10 ^ 2" "day d < 10 ^ 2" "hour d < 10 ^ 2"
    "minute d < 10 ^ 2" "second d < 10 ^ 2" "microsecond d < 10 ^ 6"
proof -
  from assms have "day d \<le> days_in_month (year d) (month d)"
    by (simp add: valid_datetime_def)
  with days_in_month_le [of "year d" "month d"] show "day d < 10 ^ 2" by simp
qed (use assms in \<open>simp_all add: valid_datetime_def\<close>)

lemma read_fraction_written:
  assumes "us < 10 ^ 6"
  shows "read_fraction ((if us = 0 then [] else ''.'' @ zpad 6 us) @ ''+00:00'')
           = Some (us, ''+00:00'')"
  using assms by (simp add: read_fraction_def read_digits_zpad)

lemma parse_iso_isoformat:
  assumes "valid_datetime d"
  shows "parse_iso (isoformat d) = Some d"
proof -
  note b = valid_datetime_bounds [OF assms]
  have f: "read_fraction ((if microsecond d = 0 then [] else ''.'' @ zpad 6 (microsecond d))
             @ ''+00:00'') = Some (microsecond d, ''+00:00'')"
    by (rule read_fraction_written [OF b(7)])
  show ?thesis
    unfolding isoformat_def parse_iso_def
    apply (simp only: append_Cons append_Nil read_digits_zpad [OF _ b(1)]
        read_digits_zpad [OF _ b(2)] read_digits_zpad [OF _ b(3)] read_digits_zpad [OF _ b(4)]
        read_digits_zpad [OF _ b(5)] read_digits_zpad [OF _ b(6)] zero_less_numeral
        Option.bind.simps prod.case expect_Cons f [simplified append_Cons append_Nil])
    apply simp
    done
qed

lemma fromisoformat_isoformat:
  "valid_datetime d \<Longrightarrow> fromisoformat (isoformat d) = Inr d"
  by (simp add: fromisoformat_def parse_iso_isoformat)

lemma fromisoformat_valid: "fromisoformat s = Inr d \<Longrightarrow> valid_datetime d"
  by (auto simp: fromisoformat_def split: option.splits if_splits)

lemma field_less:
  assumes "0 < w" and "x < 10 ^ w" and "y < 10 ^ w"
  shows "zpad w x @ u < zpad w y @ v \<longleftrightarrow> x < y \<or> x = y \<and> u < v"
proof -
  have len: "length (zpad w x) = length (zpad w y)"
    using assms by (simp add: length_zpad)
  show ?thesis
    unfolding less_append_same_length [OF len] zpad_less_iff [OF assms] zpad_eq_iff [OF assms]
    by (rule refl)
qed

lemma fraction_less:
  assumes "x < 10 ^ 6" and "y < 10 ^ 6"
  shows "(if x = 0 then [] else ''.'' @ zpad 6 x) @ ''+00:00''
           < (if y = 0 then [] else ''.'' @ zpad 6 y) @ ''+00:00'' \<longleftrightarrow> x < y"
  using assms field_less [of 6 x y "''+00:00''" "''+00:00''"]
  by (auto simp: less_char_def)

lemma isoformat_less_iff:
  assumes "valid_datetime a" and "valid_datetime b"
  shows "isoformat a < isoformat b \<longleftrightarrow> dt_fields a < dt_fields b"
proof -
  note va = valid_datetime_bounds [OF assms(1)] and vb = valid_datetime_bounds [OF assms(2)]
  show ?thesis
    unfolding isoformat_def dt_fields_def
    by (simp only: append_Cons append_Nil less_irrefl field_less [OF _ va(1) vb(1)]
        field_less [OF _ va(2) vb(2)] field_less [OF _ va(3) vb(3)] field_less [OF _ va(4) vb(4)]
        field_less [OF _ va(5) vb(5)] field_less [OF _ va(6) vb(6)] zero_less_numeral
        Cons_less_Cons fraction_less [OF va(7) vb(7), simplified append_Cons append_Nil]
        simp_thms not_less_Nil Nil_less_Cons)
qed

subsection \<open>Sorting\<close>

lemma mset_insert_desc: "mset (insert_desc key x xs) = add_mset x (mset xs)"
  by (induction xs) simp_all

lemma mset_sort_desc: "mset (sort_desc key xs) = mset xs"
  unfolding sort_desc_def by (induction xs) (simp_all add: mset_insert_desc)

lemma set_sort_desc: "set (sort_desc key xs) = set xs"
  using mset_sort_desc [of key xs] by (metis set_mset_mset)

lemma length_sort_desc: "length (sort_desc key xs) = length xs"
  using mset_sort_desc [of key xs] by (metis size_mset)

lemma set_insert_desc: "set (insert_desc key x xs) = insert x (set xs)"
  using mset_insert_desc [of key x xs] by (metis set_mset_add_mset_insert set_mset_mset)

lemma sorted_insert_desc:
  "sorted_wrt (\<lambda>a b. key b \<le> key a) xs \<Longrightarrow>
   sorted_wrt (\<lambda>a b. key b \<le> key a) (insert_desc key x xs)"
  by (induction xs) (auto simp: set_insert_desc)

lemma sorted_sort_desc: "sorted_wrt (\<lambda>a b. key b \<le> key a) (sort_desc key xs)"
  unfolding sort_desc_def by (induction xs) (simp_all add: sorted_insert_desc)

lemma sorted_take_drop:
  assumes "sorted_wrt R xs" and "a \<in> set (take n xs)" and "b \<in> set (drop n xs)"
  shows "R a b"
proof -
  have "sorted_wrt R (take n xs @ drop n xs)" using assms(1) by simp
  with assms(2,3) show ?thesis unfolding sorted_wrt_append by blast
qed

subsection \<open>Collecting\<close>

lemma py_collect_map:
  "(\<And>x. x \<in> set xs \<Longrightarrow> f x = Inr (g x)) \<Longrightarrow> py_collect f xs = Inr (map g xs)"
  by (induction xs) simp_all

subsection \<open>Stored timestamps\<close>

lemma written_by_isoformat_isoformat:
  "valid_datetime d \<Longrightarrow> written_by_isoformat (isoformat d)"
  by (simp add: written_by_isoformat_def fromisoformat_isoformat)

lemma written_by_isoformatE:
  assumes "written_by_isoformat s"
  obtains d where "fromisoformat s = Inr d" and "valid_datetime d" and "isoformat d = s"
  using assms fromisoformat_valid [of s]
  by (auto simp: written_by_isoformat_def split: sum.splits)

lemma isoformat_le_iff:
  assumes "valid_datetime a" and "valid_datetime b"
  shows "isoformat a \<le> isoformat b \<longleftrightarrow> dt_fields a \<le> dt_fields b"
  using isoformat_less_iff [OF assms(2) assms(1)] by (simp add: not_less [symmetric])

lemma evaporation_from_doc_dict:
  "valid_datetime (er_timestamp r) \<Longrightarrow> evaporation_from_doc (evaporation_dict r) = Inr r"
  by (simp add: evaporation_from_doc_def evaporation_dict_def fromisoformat_isoformat)

lemma evaporation_from_doc_written:
  assumes "written_by_isoformat (er_timestamp doc)"
  obtains r where "evaporation_from_doc doc = Inr r" and "evaporation_dict r = doc"
    and "valid_datetime (er_timestamp r)"
proof -
  from assms obtain d where d: "fromisoformat (er_timestamp doc) = Inr d" "valid_datetime d"
    "isoformat d = er_timestamp doc"
    by (rule written_by_isoformatE)
  let ?r = "\<lparr> er_id = er_id doc, evaporation_rate = evaporation_rate doc,
             weather_input = weather_input doc, penman_components = penman_components doc,
             er_timestamp = d \<rparr>"
  have "evaporation_from_doc doc = Inr ?r"
    by (simp add: evaporation_from_doc_def d(1))
  moreover have "evaporation_dict ?r = doc"
    by (simp add: evaporation_dict_def d(3))
  moreover have "valid_datetime (er_timestamp ?r)"
    using d(2) by simp
  ultimately show ?thesis by (rule that)
qed

lemma storage_from_doc_written:
  assumes "written_by_isoformat (sp_timestamp doc)"
    and "written_by_isoformat (er_timestamp (evaporation_data doc))"
  obtains r where "storage_from_doc doc = Inr r" and "storage_dict r = doc"
    and "valid_datetime (sp_timestamp r)" and "isoformat (sp_timestamp r) = sp_timestamp doc"
proof -
  from assms(1) obtain d where d: "fromisoformat (sp_timestamp doc) = Inr d" "valid_datetime d"
    "isoformat d = sp_timestamp doc"
    by (rule written_by_isoformatE)
  from assms(2) obtain e where e: "evaporation_from_doc (evaporation_data doc) = Inr e"
    "evaporation_dict e = evaporation_data doc"
    by (rule evaporation_from_doc_written)
  let ?r = "\<lparr> reservoir_capacity_needed = reservoir_capacity_needed doc,
             seasonal_analysis = seasonal_analysis doc,
             irrigation_recommendations = irrigation_recommendations doc,
             water_balance = water_balance doc,
             sp_id = sp_id doc, evaporation_data = e, sp_timestamp = d \<rparr>"
  have "storage_from_doc doc = Inr ?r"
    by (simp add: storage_from_doc_def d(1) e(1))
  moreover have "storage_dict ?r = doc"
    by (simp add: storage_dict_def d(3) e(2))
  moreover have "valid_datetime (sp_timestamp ?r)" "isoformat (sp_timestamp ?r) = sp_timestamp doc"
    using d(2,3) by simp_all
  ultimately show ?thesis by (rule that)
qed

lemma status_from_doc_written:
  assumes "written_by_isoformat (sc_timestamp doc)"
  obtains c where "status_from_doc doc = Inr c" and "status_dict c = doc"
proof -
  from assms obtain d where d: "fromisoformat (sc_timestamp doc) = Inr d"
    "isoformat d = sc_timestamp doc"
    by (rule written_by_isoformatE)
  let ?c = "\<lparr> sc_id = sc_id doc, client_name = client_name doc, sc_timestamp = d \<rparr>"
  have "status_from_doc doc = Inr ?c"
    by (simp add: status_from_doc_def d(1))
  moreover have "status_dict ?c = doc"
    by (simp add: status_dict_def d(2))
  ultimately show ?thesis by (rule that)
qed

lemma collect_stored:
  assumes "\<And>doc. doc \<in> set xs \<Longrightarrow> \<exists>r. from_doc doc = Inr r \<and> P doc r"
  shows "py_collect from_doc xs = Inr (map (\<lambda>doc. projr (from_doc doc)) xs)"
    and "\<And>doc. doc \<in> set xs \<Longrightarrow> P doc (projr (from_doc doc))"
proof -
  show "P doc (projr (from_doc doc))" if "doc \<in> set xs" for doc
    using assms [OF that] by auto
  have "from_doc doc = Inr (projr (from_doc doc))" if "doc \<in> set xs" for doc
    using assms [OF that] by auto
  then show "py_collect from_doc xs = Inr (map (\<lambda>doc. projr (from_doc doc)) xs)"
    by (intro py_collect_map) simp
qed

lemma newest_first:
  fixes key :: "'d \<Rightarrow> string" and ts :: "'r \<Rightarrow> datetime"
  assumes docs: "\<And>doc. doc \<in> set docs \<Longrightarrow>
      \<exists>r. from_doc doc = Inr r \<and>
        (to_doc r = doc \<and> valid_datetime (ts r) \<and> key doc = isoformat (ts r))"
  shows "\<exists>rs. py_collect from_doc (take n (take n (sort_desc key docs))) = Inr rs \<and>
     length rs = min n (length docs) \<and>
     sorted_wrt (\<lambda>a b. dt_fields (ts b) \<le> dt_fields (ts a)) rs \<and>
     mset (map to_doc rs) \<subseteq># mset docs \<and>
     (\<forall>d. d \<in># mset docs - mset (map to_doc rs) \<longrightarrow>
        (\<forall>r \<in> set rs. key d \<le> key (to_doc r)))"
proof -
  let ?s = "sort_desc key docs"
  let ?g = "\<lambda>doc. projr (from_doc doc)"
  let ?rs = "map ?g (take n ?s)"
  have sub: "set (take n ?s) \<subseteq> set docs"
    using set_take_subset [of n ?s] by (simp add: set_sort_desc)
  have stored: "\<exists>r. from_doc doc = Inr r \<and>
      (to_doc r = doc \<and> valid_datetime (ts r) \<and> key doc = isoformat (ts r))"
    if "doc \<in> set (take n ?s)" for doc
    using docs that sub by blast
  note c = collect_stored [of "take n ?s" from_doc
      "\<lambda>doc r. to_doc r = doc \<and> valid_datetime (ts r) \<and> key doc = isoformat (ts r)", OF stored]
  have rs: "py_collect from_doc (take n (take n ?s)) = Inr ?rs"
    using c(1) by simp
  have dicts: "map to_doc ?rs = take n ?s"
    using c(2) by (simp add: map_idI)
  have len: "length ?rs = min n (length docs)"
    by (simp add: length_sort_desc min.commute)
  have "sorted_wrt (\<lambda>a b. key b \<le> key a) (take n ?s)"
    by (rule sorted_wrt_take [OF sorted_sort_desc])
  then have "sorted_wrt (\<lambda>a b. dt_fields (ts (?g b)) \<le> dt_fields (ts (?g a))) (take n ?s)"
  proof (rule sorted_wrt_mono_rel [rotated])
    fix a b
    assume "a \<in> set (take n ?s)" "b \<in> set (take n ?s)" "key b \<le> key a"
    with c(2) [of a] c(2) [of b] isoformat_le_iff [of "ts (?g b)" "ts (?g a)"]
    show "dt_fields (ts (?g b)) \<le> dt_fields (ts (?g a))" by simp
  qed
  then have srt: "sorted_wrt (\<lambda>a b. dt_fields (ts b) \<le> dt_fields (ts a)) ?rs"
    by (simp add: sorted_wrt_map)
  have split: "mset docs = mset (take n ?s) + mset (drop n ?s)"
    by (metis append_take_drop_id mset_append mset_sort_desc)
  have incl: "mset (map to_doc ?rs) \<subseteq># mset docs"
    unfolding dicts split by simp
  have top: "key d \<le> key (to_doc r)"
    if "d \<in># mset docs - mset (map to_doc ?rs)" "r \<in> set ?rs" for d r
  proof -
    from that(1) have "d \<in> set (drop n ?s)"
      unfolding dicts split by simp
    moreover from that(2) have "to_doc r \<in> set (map to_doc ?rs)"
      by (rule imageI [of r "set ?rs" to_doc, unfolded set_map [symmetric]])
    then have "to_doc r \<in> set (take n ?s)"
      unfolding dicts .
    ultimately show ?thesis
      using sorted_take_drop [OF sorted_sort_desc, of "to_doc r" n key docs d] by simp
  qed
  from rs len srt incl top show ?thesis by blast
qed

subsection \<open>The invariant of the store\<close>

lemma stored_by_handlers_empty: "stored_by_handlers empty_db"
  by (simp add: stored_by_handlers_def empty_db_def)

lemma stored_by_handlers_insert_evaporation:
  assumes "stored_by_handlers db" and "valid_datetime (er_timestamp r)"
  shows "stored_by_handlers (insert_evaporation r db)"
  using assms
  by (simp add: stored_by_handlers_def insert_evaporation_def evaporation_dict_def
      written_by_isoformat_isoformat)

lemma new_evaporation_result_timestamp:
  "new_evaporation_result winput fresh_id now = Inr r \<Longrightarrow> er_timestamp r = now"
  by (auto simp: new_evaporation_result_def py_bind_def split: sum.splits)

lemma stored_by_handlers_calculate_evaporation:
  assumes "stored_by_handlers db" and "valid_datetime now"
    and "calculate_evaporation winput fresh_id now db = Inr (r, db')"
  shows "stored_by_handlers db'"
proof -
  from assms(3) have r: "new_evaporation_result winput fresh_id now = Inr r"
    and db': "db' = insert_evaporation r db"
    by (auto simp: calculate_evaporation_def py_bind_def split: sum.splits)
  from new_evaporation_result_timestamp [OF r] assms(2) have "valid_datetime (er_timestamp r)"
    by simp
  from stored_by_handlers_insert_evaporation [OF assms(1) this] db' show ?thesis by simp
qed

lemma stored_by_handlers_storage_planning:
  assumes "stored_by_handlers db" and "valid_datetime evap_now" and "valid_datetime plan_now"
    and "calculate_storage_planning_endpoint winput area evap_id evap_now plan_id plan_now db
           = Inr (r, db')"
  shows "stored_by_handlers db'"
  using assms
  by (auto simp: calculate_storage_planning_endpoint_def py_bind_def Let_def
      stored_by_handlers_def storage_dict_def evaporation_dict_def
      written_by_isoformat_isoformat
      split: sum.splits dest!: new_evaporation_result_timestamp)

lemma stored_by_handlers_create_status_check:
  assumes "stored_by_handlers db" and "valid_datetime now"
  shows "stored_by_handlers (snd (create_status_check name fresh_id now db))"
  using assms
  by (simp add: stored_by_handlers_def create_status_check_def status_dict_def Let_def
      written_by_isoformat_isoformat)

lemma stored_evaporation:
  assumes "stored_by_handlers db" and "doc \<in> set (evaporation_results db)"
  shows "\<exists>r. evaporation_from_doc doc = Inr r \<and>
    (evaporation_dict r = doc \<and> valid_datetime (er_timestamp r) \<and>
     er_timestamp doc = isoformat (er_timestamp r))"
proof -
  from assms have "written_by_isoformat (er_timestamp doc)"
    by (simp add: stored_by_handlers_def list_all_iff)
  then obtain r where r: "evaporation_from_doc doc = Inr r" "evaporation_dict r = doc"
    "valid_datetime (er_timestamp r)"
    by (rule evaporation_from_doc_written)
  from r(2) have "er_timestamp doc = isoformat (er_timestamp r)"
    by (auto simp: evaporation_dict_def)
  with r show ?thesis by blast
qed

lemma stored_storage:
  assumes "stored_by_handlers db" and "doc \<in> set (storage_planning_results db)"
  shows "\<exists>r. storage_from_doc doc = Inr r \<and>
    (storage_dict r = doc \<and> valid_datetime (sp_timestamp r) \<and>
     sp_timestamp doc = isoformat (sp_timestamp r))"
proof -
  from assms have "written_by_isoformat (sp_timestamp doc)"
    "written_by_isoformat (er_timestamp (evaporation_data doc))"
    by (simp_all add: stored_by_handlers_def list_all_iff)
  then obtain r where "storage_from_doc doc = Inr r" "storage_dict r = doc"
    "valid_datetime (sp_timestamp r)" "isoformat (sp_timestamp r) = sp_timestamp doc"
    by (rule storage_from_doc_written)
  then show ?thesis by auto
qed

lemma stored_status:
  assumes "stored_by_handlers db" and "doc \<in> set (status_checks db)"
  shows "\<exists>c. status_from_doc doc = Inr c \<and> status_dict c = doc"
proof -
  from assms have "written_by_isoformat (sc_timestamp doc)"
    by (simp add: stored_by_handlers_def list_all_iff)
  then obtain c where "status_from_doc doc = Inr c" "status_dict c = doc"
    by (rule status_from_doc_written)
  then show ?thesis by blast
qed

text \<open>
  Claim C4, as amended. On a store that only the handlers have written to, the two history
  operations return at most 50 records, newest first by timestamp: the result has
  \<open>min 50 n\<close> records for \<open>n\<close> stored ones, its timestamps descend, its records are stored
  ones, and no stored record left out is newer than a returned one. The status operation
  returns at most 1000 records, the first 1000 in the order of the store, which is the order
  of insertion: it does not sort.
\<close>

theorem list_operations:
  assumes "stored_by_handlers db"
  shows "(\<exists>rs. get_evaporation_history db = Inr rs \<and>
            length rs = min 50 (length (evaporation_results db)) \<and>
            sorted_wrt (\<lambda>a b. dt_fields (er_timestamp b) \<le> dt_fields (er_timestamp a)) rs \<and>
            mset (map evaporation_dict rs) \<subseteq># mset (evaporation_results db) \<and>
            (\<forall>d. d \<in># mset (evaporation_results db) - mset (map evaporation_dict rs) \<longrightarrow>
               (\<forall>r \<in> set rs. er_timestamp d \<le> er_timestamp (evaporation_dict r)))) \<and>
         (\<exists>ps. get_storage_planning_history db = Inr ps \<and>
            length ps = min 50 (length (storage_planning_results db)) \<and>
            sorted_wrt (\<lambda>a b. dt_fields (sp_timestamp b) \<le> dt_fields (sp_timestamp a)) ps \<and>
            mset (map storage_dict ps) \<subseteq># mset (storage_planning_results db) \<and>
            (\<forall>d. d \<in># mset (storage_planning_results db) - mset (map storage_dict ps) \<longrightarrow>
               (\<forall>p \<in> set ps. sp_timestamp d \<le> sp_timestamp (storage_dict p)))) \<and>
         (\<exists>cs. get_status_checks db = Inr cs \<and>
            length cs = min 1000 (length (status_checks db)) \<and>
            map status_dict cs = take 1000 (status_checks db))"
proof (intro conjI)
  show "\<exists>rs. get_evaporation_history db = Inr rs \<and>
            length rs = min 50 (length (evaporation_results db)) \<and>
            sorted_wrt (\<lambda>a b. dt_fields (er_timestamp b) \<le> dt_fields (er_timestamp a)) rs \<and>
            mset (map evaporation_dict rs) \<subseteq># mset (evaporation_results db) \<and>
            (\<forall>d. d \<in># mset (evaporation_results db) - mset (map evaporation_dict rs) \<longrightarrow>
               (\<forall>r \<in> set rs. er_timestamp d \<le> er_timestamp (evaporation_dict r)))"
    unfolding get_evaporation_history_def Let_def
    by (rule newest_first [of "evaporation_results db" evaporation_from_doc evaporation_dict
          er_timestamp er_timestamp 50, OF stored_evaporation [OF assms]])
  show "\<exists>ps. get_storage_planning_history db = Inr ps \<and>
            length ps = min 50 (length (storage_planning_results db)) \<and>
            sorted_wrt (\<lambda>a b. dt_fields (sp_timestamp b) \<le> dt_fields (sp_timestamp a)) ps \<and>
            mset (map storage_dict ps) \<subseteq># mset (storage_planning_results db) \<and>
            (\<forall>d. d \<in># mset (storage_planning_results db) - mset (map storage_dict ps) \<longrightarrow>
               (\<forall>p \<in> set ps. sp_timestamp d \<le> sp_timestamp (storage_dict p)))"
    unfolding get_storage_planning_history_def Let_def
    by (rule newest_first [of "storage_planning_results db" storage_from_doc storage_dict
          sp_timestamp sp_timestamp 50, OF stored_storage [OF assms]])
  have stored: "\<exists>c. status_from_doc doc = Inr c \<and> status_dict c = doc"
    if "doc \<in> set (take 1000 (status_checks db))" for doc
    using stored_status [OF assms] that by (meson in_set_takeD)
  note c = collect_stored [of "take 1000 (status_checks db)" status_from_doc
      "\<lambda>doc c. status_dict c = doc", OF stored]
  let ?cs = "map (\<lambda>doc. projr (status_from_doc doc)) (take 1000 (status_checks db))"
  have "get_status_checks db = Inr ?cs"
    unfolding get_status_checks_def by (rule c(1))
  moreover have "length ?cs = min 1000 (length (status_checks db))"
    by (simp add: min.commute)
  moreover have "map status_dict ?cs = take 1000 (status_checks db)"
    using c(2) by (simp add: map_idI)
  ultimately show "\<exists>cs. get_status_checks db = Inr cs \<and>
      length cs = min 1000 (length (status_checks db)) \<and>
      map status_dict cs = take 1000 (status_checks db)"
    by blast
qed

theorem list_operations_witness:
  "(let db = empty_db \<lparr> evaporation_results :=
       map (\<lambda>i. \<lparr> er_id = ''r'', evaporation_rate = 0,
                   weather_input = \<lparr> temperature = 0, humidity = 0, wind_speed = 0,
                                     solar_radiation = 0, location = None \<rparr>,
                   penman_components = [],
                   er_timestamp = isoformat \<lparr> year = 2025, month = 3, day = 5, hour = 0,
                                              minute = 0, second = i, microsecond = 0 \<rparr> \<rparr>)
         [0..<51] \<rparr>
    in stored_by_handlers db \<and> length (evaporation_results db) = 51 \<and>
       (\<exists>rs. get_evaporation_history db = Inr rs \<and> length rs = 50 \<and>
          sorted_wrt (\<lambda>a b. dt_fields (er_timestamp b) \<le> dt_fields (er_timestamp a)) rs))"
proof -
  define db where "db = empty_db \<lparr> evaporation_results :=
       map (\<lambda>i. \<lparr> er_id = ''r'', evaporation_rate = 0,
                   weather_input = \<lparr> temperature = 0, humidity = 0, wind_speed = 0,
                                     solar_radiation = 0, location = None \<rparr>,
                   penman_components = [],
                   er_timestamp = isoformat \<lparr> year = 2025, month = 3, day = 5, hour = 0,
                                              minute = 0, second = i, microsecond = 0 \<rparr> \<rparr>)
         [0..<51] \<rparr>"
  have v: "valid_datetime \<lparr> year = 2025, month = 3, day = 5, hour = 0, minute = 0, second = i,
      microsecond = 0 \<rparr>" if "i < 51" for i
    using that by (simp add: valid_datetime_def days_in_month_def)
  have inv: "stored_by_handlers db"
    by (simp add: db_def stored_by_handlers_def empty_db_def list_all_iff
        written_by_isoformat_isoformat v)
  have len: "length (evaporation_results db) = 51"
    by (simp add: db_def)
  from list_operations [OF inv] obtain rs where "get_evaporation_history db = Inr rs"
    "length rs = min 50 (length (evaporation_results db))"
    "sorted_wrt (\<lambda>a b. dt_fields (er_timestamp b) \<le> dt_fields (er_timestamp a)) rs"
    by blast
  with inv len show ?thesis
    unfolding Let_def db_def [symmetric] by auto
qed

text \<open>
  The claim as first stated has every list operation return its records newest first. Two
  status checks written ten seconds apart come back from the status operation in the order
  they were written, the older one first.
\<close>

theorem status_list_counterexample:
  "get_status_checks
     (snd (create_status_check ''b'' ''2''
        \<lparr> year = 2025, month = 3, day = 5, hour = 0, minute = 0, second = 20, microsecond = 0 \<rparr>
        (snd (create_status_check ''a'' ''1''
           \<lparr> year = 2025, month = 3, day = 5, hour = 0, minute = 0, second = 10,
             microsecond = 0 \<rparr> empty_db))))
     = Inr [\<lparr> sc_id = ''1'', client_name = ''a'',
              sc_timestamp = \<lparr> year = 2025, month = 3, day = 5, hour = 0, minute = 0,
                               second = 10, microsecond = 0 \<rparr> \<rparr>,
            \<lparr> sc_id = ''2'', client_name = ''b'',
              sc_timestamp = \<lparr> year = 2025, month = 3, day = 5, hour = 0, minute = 0,
                               second = 20, microsecond = 0 \<rparr> \<rparr>] \<and>
   dt_fields \<lparr> year = 2025, month = 3, day = 5, hour = 0, minute = 0, second = 10,
               microsecond = 0 \<rparr>
     < dt_fields \<lparr> year = 2025, month = 3, day = 5, hour = 0, minute = 0, second = 20,
                   microsecond = 0 \<rparr>"
proof -
  have v: "valid_datetime \<lparr> year = 2025, month = 3, day = 5, hour = 0, minute = 0, second = i,
      microsecond = 0 \<rparr>" if "i < 60" for i
    using that by (simp add: valid_datetime_def days_in_month_def)
  show ?thesis
    by (simp add: get_status_checks_def create_status_check_def status_from_doc_def
        status_dict_def empty_db_def Let_def fromisoformat_isoformat v dt_fields_def)
qed

subsection \<open>The round trip of a stored record\<close>

lemma foldr_insert_desc_newest:
  "(\<forall>d \<in> set xs. key d \<le> key x) \<Longrightarrow>
   foldr (insert_desc key) xs (x # ys) = x # foldr (insert_desc key) xs ys"
  by (induction xs) (auto simp: not_less)

lemma sort_desc_newest:
  assumes "\<And>d. d \<in> set xs \<Longrightarrow> key d \<le> key x"
  shows "sort_desc key (xs @ [x]) = x # sort_desc key xs"
  using foldr_insert_desc_newest [of xs key x "[]"] assms by (simp add: sort_desc_def)

text \<open>
  Claim C5. For every evaporation result with a valid timestamp, the timestamp parses back
  from its \<open>isoformat\<close> string to the same value, and the stored document reads back as a
  record equal to the original in every field. Listed right after it is persisted, when no
  record of the store carries a timestamp as late as its own, the record is the first of
  the history, whatever the number of records the store already holds.
\<close>

theorem evaporation_round_trip:
  assumes "valid_datetime (er_timestamp r)" and "stored_by_handlers db"
    and "\<forall>d \<in> set (evaporation_results db). er_timestamp d < isoformat (er_timestamp r)"
  shows "fromisoformat (isoformat (er_timestamp r)) = Inr (er_timestamp r) \<and>
         evaporation_from_doc (evaporation_dict r) = Inr r \<and>
         (\<exists>rs. get_evaporation_history (insert_evaporation r db) = Inr (r # rs))"
proof -
  let ?docs = "evaporation_results db"
  let ?g = "\<lambda>doc. projr (evaporation_from_doc doc)"
  have again: "evaporation_from_doc (evaporation_dict r) = Inr r"
    by (rule evaporation_from_doc_dict [OF assms(1)])
  have docs: "evaporation_results (insert_evaporation r db) = ?docs @ [evaporation_dict r]"
    by (simp add: insert_evaporation_def)
  have key: "er_timestamp (evaporation_dict r) = isoformat (er_timestamp r)"
    by (simp add: evaporation_dict_def)
  have "sort_desc er_timestamp (?docs @ [evaporation_dict r])
      = evaporation_dict r # sort_desc er_timestamp ?docs"
    using assms(3) by (intro sort_desc_newest) (simp add: key less_imp_le)
  then have listed: "take 50 (take 50 (sort_desc er_timestamp (?docs @ [evaporation_dict r])))
      = evaporation_dict r # take 49 (sort_desc er_timestamp ?docs)"
    by (simp add: take_Cons')
  have "\<exists>x. evaporation_from_doc doc = Inr x \<and> evaporation_dict x = doc"
    if "doc \<in> set (take 49 (sort_desc er_timestamp ?docs))" for doc
  proof -
    from that have "doc \<in> set ?docs"
      using set_take_subset [of 49 "sort_desc er_timestamp ?docs"] by (auto simp: set_sort_desc)
    from stored_evaporation [OF assms(2) this] show ?thesis by blast
  qed
  note c = collect_stored [of "take 49 (sort_desc er_timestamp ?docs)" evaporation_from_doc
      "\<lambda>doc x. evaporation_dict x = doc", OF this]
  have "get_evaporation_history (insert_evaporation r db)
      = Inr (r # map ?g (take 49 (sort_desc er_timestamp ?docs)))"
    unfolding get_evaporation_history_def Let_def docs listed
    by (simp add: again c(1))
  with again fromisoformat_isoformat [OF assms(1)] show ?thesis by blast
qed

theorem evaporation_round_trip_witness:
  "(let db = empty_db \<lparr> evaporation_results :=
       map (\<lambda>i. \<lparr> er_id = ''r'', evaporation_rate = 0,
                   weather_input = \<lparr> temperature = 0, humidity = 0, wind_speed = 0,
                                     solar_radiation = 0, location = None \<rparr>,
                   penman_components = [],
                   er_timestamp = isoformat \<lparr> year = 2025, month = 3, day = 5, hour = 0,
                                              minute = 0, second = i, microsecond = 0 \<rparr> \<rparr>)
         [0..<51] \<rparr>;
        r = \<lparr> er_id = ''n'', evaporation_rate = 7.142,
               weather_input = \<lparr> temperature = 25, humidity = 60, wind_speed = 2,
                                 solar_radiation = 20, location = Some ''farm'' \<rparr>,
               penman_components = [(''wind_function'', 5.408)],
               er_timestamp = \<lparr> year = 2025, month = 3, day = 5, hour = 0, minute = 2,
                                second = 0, microsecond = 120 \<rparr> \<rparr>
    in valid_datetime (er_timestamp r) \<and> stored_by_handlers db \<and>
       length (evaporation_results db) = 51 \<and>
       list_all (\<lambda>d. er_timestamp d < isoformat (er_timestamp r)) (evaporation_results db) \<and>
       evaporation_from_doc (evaporation_dict r) = Inr r \<and>
       (\<exists>rs. get_evaporation_history (insert_evaporation r db) = Inr (r # rs)))"
proof -
  define db where "db = empty_db \<lparr> evaporation_results :=
       map (\<lambda>i. \<lparr> er_id = ''r'', evaporation_rate = 0,
                   weather_input = \<lparr> temperature = 0, humidity = 0, wind_speed = 0,
                                     solar_radiation = 0, location = None \<rparr>,
                   penman_components = [],
                   er_timestamp = isoformat \<lparr> year = 2025, month = 3, day = 5, hour = 0,
                                              minute = 0, second = i, microsecond = 0 \<rparr> \<rparr>)
         [0..<51] \<rparr>"
  define r :: "datetime EvaporationResult" where
    "r = \<lparr> er_id = ''n'', evaporation_rate = 7.142,
               weather_input = \<lparr> temperature = 25, humidity = 60, wind_speed = 2,
                                 solar_radiation = 20, location = Some ''farm'' \<rparr>,
               penman_components = [(''wind_function'', 5.408)],
               er_timestamp = \<lparr> year = 2025, month = 3, day = 5, hour = 0, minute = 2,
                                second = 0, microsecond = 120 \<rparr> \<rparr>"
  have v: "valid_datetime \<lparr> year = 2025, month = 3, day = 5, hour = 0, minute = 0, second = i,
      microsecond = 0 \<rparr>" if "i < 51" for i
    using that by (simp add: valid_datetime_def days_in_month_def)
  have vr: "valid_datetime (er_timestamp r)"
    by (simp add: r_def valid_datetime_def days_in_month_def)
  have inv: "stored_by_handlers db"
    by (simp add: db_def stored_by_handlers_def empty_db_def list_all_iff
        written_by_isoformat_isoformat v)
  have len: "length (evaporation_results db) = 51"
    by (simp add: db_def)
  have older: "\<forall>d \<in> set (evaporation_results db). er_timestamp d < isoformat (er_timestamp r)"
  proof
    fix d assume "d \<in> set (evaporation_results db)"
    then obtain i where i: "i < 51" and d: "er_timestamp d = isoformat \<lparr> year = 2025, month = 3,
        day = 5, hour = 0, minute = 0, second = i, microsecond = 0 \<rparr>"
      by (auto simp: db_def empty_db_def)
    show "er_timestamp d < isoformat (er_timestamp r)"
      unfolding d isoformat_less_iff [OF v [OF i] vr]
      by (simp add: r_def dt_fields_def)
  qed
  from evaporation_round_trip [OF vr inv older] vr inv len older show ?thesis
    unfolding Let_def db_def [symmetric] r_def [symmetric] list_all_iff by blast
qed

subsection \<open>The default surface area\<close>




end
